theory Spec2Isabelle
  imports Complex_Main
begin

section \<open>Python and numpy values\<close>

text \<open>
  Exceptions of the Python code are values of \<open>py_error\<close>; a function that may raise
  returns \<open>py_error + 'a\<close> with \<open>Inl\<close> for the exception.
\<close>

datatype py_error = ValueError | TypeError | KeyError

text \<open>
  A float64 as numpy produces it. A finite value is carried as the rational it denotes, so
  arithmetic on finite values is exact here: the rounding of float64 operations (relative
  error about 1e-16) is not represented. The special values matter for the code and are
  kept: numpy's division by zero does not raise, it yields \<open>nan\<close> or \<open>inf\<close>.
\<close>

datatype fl = Fin rat | NaN | PInf | NInf

text \<open>\<open>np.int64 / int\<close>: true division of two counts.\<close>

definition np_true_divide :: "nat \<Rightarrow> nat \<Rightarrow> fl" where
  "np_true_divide n d =
     (if d = 0 then (if n = 0 then NaN else PInf) else Fin (of_nat n / of_nat d))"

text \<open>\<open>x * 100\<close> for a float \<open>x\<close> and a positive constant.\<close>

fun fl_times :: "fl \<Rightarrow> rat \<Rightarrow> fl" where
  "fl_times (Fin r) c = Fin (r * c)"
| "fl_times NaN c = NaN"
| "fl_times PInf c = PInf"
| "fl_times NInf c = NInf"

text \<open>\<open>x > c\<close> for a float \<open>x\<close> and a finite constant: every comparison with nan is False.\<close>

fun fl_gt :: "fl \<Rightarrow> rat \<Rightarrow> bool" where
  "fl_gt (Fin r) c = (c < r)"
| "fl_gt NaN c = False"
| "fl_gt PInf c = True"
| "fl_gt NInf c = False"

text \<open>\<open>x <= c\<close>, likewise False on nan.\<close>

fun fl_le :: "fl \<Rightarrow> rat \<Rightarrow> bool" where
  "fl_le (Fin r) c = (r \<le> c)"
| "fl_le NaN c = False"
| "fl_le PInf c = False"
| "fl_le NInf c = True"

section \<open>Risk metrics (utils.py, calculate_risk_metrics)\<close>

record prob_stats =
  avg_fraud_probability :: fl
  max_fraud_probability :: fl
  min_fraud_probability :: fl

record metrics =
  total_transactions :: nat
  legitimate_count :: nat
  fraud_count :: nat
  fraud_rate :: fl
  risk_level :: string
  risk_icon :: string
  probability :: "prob_stats option"

text \<open>\<open>np.sum(predictions == v)\<close>: the number of entries equal to \<open>v\<close>.\<close>

definition np_sum_eq :: "int list \<Rightarrow> int \<Rightarrow> nat" where
  "np_sum_eq predictions v = length (filter (\<lambda>p. p = v) predictions)"

text \<open>
  The three icons are the UTF-8 bytes of the code points U+26A0 U+FE0F, U+26A1 and U+2705.
\<close>

definition icon_warning :: string where
  "icon_warning = [CHR 0xE2, CHR 0x9A, CHR 0xA0, CHR 0xEF, CHR 0xB8, CHR 0x8F]"

definition icon_bolt :: string where
  "icon_bolt = [CHR 0xE2, CHR 0x9A, CHR 0xA1]"

definition icon_check :: string where
  "icon_check = [CHR 0xE2, CHR 0x9C, CHR 0x85]"

text \<open>
  \<open>np.mean\<close>, \<open>np.max\<close>, \<open>np.min\<close> over the probabilities. On an empty array \<open>np.mean\<close>
  yields nan with a warning, and \<open>np.max\<close>, evaluated next, raises ValueError.
\<close>

definition probability_stats :: "rat list \<Rightarrow> py_error + prob_stats" where
  "probability_stats probabilities =
     (if probabilities = [] then Inl ValueError
      else Inr \<lparr> avg_fraud_probability =
                    Fin (sum_list probabilities / of_nat (length probabilities)),
                 max_fraud_probability = Fin (Max (set probabilities)),
                 min_fraud_probability = Fin (Min (set probabilities)) \<rparr>)"

definition calculate_risk_metrics :: "int list \<Rightarrow> rat list option \<Rightarrow> py_error + metrics" where
  "calculate_risk_metrics predictions probabilities =
     (let total = length predictions;
          fraud = np_sum_eq predictions 1;
          legitimate = np_sum_eq predictions 0;
          rate = fl_times (np_true_divide fraud total) 100;
          (level, icon) =
             (if fl_gt rate 5 then (''HIGH'', icon_warning)
              else if fl_gt rate 2 then (''MEDIUM'', icon_bolt)
              else (''LOW'', icon_check));
          m = \<lparr> total_transactions = total,
                legitimate_count = legitimate,
                fraud_count = fraud,
                fraud_rate = rate,
                risk_level = level,
                risk_icon = icon,
                probability = None \<rparr>
      in case probabilities of
           None \<Rightarrow> Inr m
         | Some ps \<Rightarrow>
             (case probability_stats ps of
                Inl e \<Rightarrow> Inl e
              | Inr st \<Rightarrow> Inr (m\<lparr>probability := Some st\<rparr>)))"

section \<open>Text helpers\<close>

text \<open>Decimal digits of a natural number, as \<open>str(n)\<close> and \<open>f"{n}"\<close> print them.\<close>

definition digit_char :: "nat \<Rightarrow> char" where
  "digit_char d = ''0123456789'' ! d"

fun str_nat :: "nat \<Rightarrow> string" where
  "str_nat n = (if n < 10 then [digit_char n] else str_nat (n div 10) @ [digit_char (n mod 10)])"

declare str_nat.simps [simp del]

text \<open>\<open>sep.join(xs)\<close>.\<close>

fun join :: "string \<Rightarrow> string list \<Rightarrow> string" where
  "join sep [] = []"
| "join sep [x] = x"
| "join sep (x # y # ys) = x @ sep @ join sep (y # ys)"

text \<open>
  \<open>repr\<close> of a list of strings, for strings that need no escaping (the feature names
  \<open>V1\<close> .. \<open>V28\<close> are the only ones the code prints this way).
\<close>

definition py_repr_list :: "string list \<Rightarrow> string" where
  "py_repr_list xs = ''['' @ join '', '' (map (\<lambda>s. [CHR 0x27] @ s @ [CHR 0x27]) xs) @ '']''"

section \<open>Tables (pandas DataFrame)\<close>

text \<open>
  A cell of an object-dtype column is a Python number or a string; a missing value is the
  float nan. A column has one of the dtypes that \<open>read_csv\<close> yields: a number dtype
  (int64 or float64), bool, or object. A table is the list of its labelled columns, in
  column order. \<open>read_csv\<close> yields distinct labels, but a DataFrame may repeat a label,
  and the operations below follow pandas there too.
\<close>

datatype obj = PyNum fl | PyStr string

datatype column = NumCol "fl list" | BoolCol "bool list" | ObjCol "obj list"

type_synonym table = "(string \<times> column) list"

definition columns :: "table \<Rightarrow> string list" where
  "columns data = map fst data"

fun col_len :: "column \<Rightarrow> nat" where
  "col_len (NumCol xs) = length xs"
| "col_len (BoolCol bs) = length bs"
| "col_len (ObjCol os) = length os"

text \<open>\<open>len(df)\<close>: the length of the index.\<close>

fun nrows :: "table \<Rightarrow> nat" where
  "nrows [] = 0"
| "nrows ((n, c) # rest) = col_len c"

text \<open>
  \<open>select_dtypes(include=[np.number])\<close> keeps int and float columns; bool is not a
  subtype of \<open>np.number\<close>.
\<close>

fun is_np_number :: "column \<Rightarrow> bool" where
  "is_np_number (NumCol xs) = True"
| "is_np_number (BoolCol bs) = False"
| "is_np_number (ObjCol os) = False"

section \<open>Validator (utils.py, validate_csv_data)\<close>

definition expected_features :: "string list" where
  "expected_features = map (\<lambda>i. ''V'' @ str_nat i) [1..<29]"

text \<open>
  The comparison \<open>len(numeric_columns) < len(data.columns) * 0.8\<close> is made on floats. The
  float nearest to 0.8 exceeds it by a relative 2^-54, so the product rounds to the exact
  integer whenever four fifths of the column count is an integer, and is at least 0.2 away
  from every integer otherwise: the float comparison agrees with the exact one, which is
  written here.
\<close>

definition validate_csv_data :: "table \<Rightarrow> bool \<times> string" where
  "validate_csv_data data =
     (if length (columns data) < 5 then (False, ''CSV must contain at least 5 columns'')
      else
        let missing_features = filter (\<lambda>col. col \<notin> set (columns data)) expected_features
        in if length missing_features > 20
           then (False, ''Missing many expected feature columns: '' @
                        py_repr_list (take 5 missing_features) @ ''...'')
           else
             let numeric_columns = filter (\<lambda>(n, c). is_np_number c) data
             in if (of_nat (length numeric_columns) :: rat) < of_nat (length (columns data)) * (8 / 10)
                then (False, ''Most columns should be numeric'')
                else (True, ''Data validation passed''))"

section \<open>Number formatting\<close>

text \<open>Left padding with zeros to a width.\<close>

definition zero_pad :: "nat \<Rightarrow> string \<Rightarrow> string" where
  "zero_pad w s = replicate (w - length s) (CHR ''0'') @ s"

text \<open>The format \<open>{:,}\<close> of a count: decimal digits in groups of three.\<close>

fun format_thousands :: "nat \<Rightarrow> string" where
  "format_thousands n =
     (if n < 1000 then str_nat n
      else format_thousands (n div 1000) @ '','' @ zero_pad 3 (str_nat (n mod 1000)))"

declare format_thousands.simps [simp del]

text \<open>Rounding to the nearest integer, ties to even, as Python's float formatting rounds.\<close>

definition round_half_even :: "rat \<Rightarrow> int" where
  "round_half_even x =
     (let f = \<lfloor>x\<rfloor>; d = x - of_int f
      in if d < 1 / 2 then f
         else if 1 / 2 < d then f + 1
         else if even f then f else f + 1)"

text \<open>The format \<open>{:.kf}\<close> of a float, for \<open>k > 0\<close>.\<close>

fun format_fixed :: "nat \<Rightarrow> fl \<Rightarrow> string" where
  "format_fixed k (Fin r) =
     (let q = nat (round_half_even (\<bar>r\<bar> * 10 ^ k))
      in (if r < 0 then ''-'' else []) @
         str_nat (q div 10 ^ k) @ ''.'' @ zero_pad k (str_nat (q mod 10 ^ k)))"
| "format_fixed k NaN = ''nan''"
| "format_fixed k PInf = ''inf''"
| "format_fixed k NInf = ''-inf''"

section \<open>Report generator (utils.py, generate_summary_report)\<close>

text \<open>
  The f-string that opens the report. \<open>now\<close> is the clock reading, already formatted by
  \<open>strftime('%Y-%m-%d %H:%M:%S')\<close>.
\<close>

definition report_header :: "metrics \<Rightarrow> string \<Rightarrow> string \<Rightarrow> string" where
  "report_header m model_path now =
     ''\<newline>Fraud Detection Report\<newline>'' @
     ''Generated: '' @ now @ ''\<newline>'' @
     ''\<newline>'' @
     ''Summary:\<newline>'' @
     ''- Total Transactions: '' @ format_thousands (total_transactions m) @ ''\<newline>'' @
     ''- Legitimate Transactions: '' @ format_thousands (legitimate_count m) @ ''\<newline>'' @
     ''- Fraudulent Transactions: '' @ format_thousands (fraud_count m) @ ''\<newline>'' @
     ''- Fraud Rate: '' @ format_fixed 2 (fraud_rate m) @ ''%\<newline>'' @
     ''- Risk Level: '' @ risk_level m @ '' '' @ risk_icon m @ ''\<newline>'' @
     ''\<newline>'' @
     ''Model Used: '' @ model_path @ ''\<newline>'' @
     ''\<newline>'' @
     ''Risk Assessment:\<newline>''"

definition generate_summary_report :: "metrics \<Rightarrow> string \<Rightarrow> string \<Rightarrow> string" where
  "generate_summary_report m model_path now =
     (let report = report_header m model_path now;
          report =
            (if risk_level m = ''HIGH'' then
               report
               @ ''- HIGH RISK: Fraud rate is above 5%. Immediate attention required.\<newline>''
               @ ''- Consider implementing additional security measures.\<newline>''
               @ ''- Review recent system changes and access patterns.\<newline>''
             else if risk_level m = ''MEDIUM'' then
               report
               @ ''- MEDIUM RISK: Fraud rate is between 2-5%. Monitor closely.\<newline>''
               @ ''- Review suspicious transactions manually.\<newline>''
               @ ''- Consider increasing monitoring frequency.\<newline>''
             else
               report
               @ ''- LOW RISK: Fraud rate is below 2%. Normal operations.\<newline>''
               @ ''- Continue with current security protocols.\<newline>'')
      in case probability m of
           Some st \<Rightarrow>
             report
             @ ''\<newline>Probability Analysis:\<newline>''
             @ ''- Average Fraud Probability: '' @ format_fixed 3 (avg_fraud_probability st) @ ''\<newline>''
             @ ''- Maximum Fraud Probability: '' @ format_fixed 3 (max_fraud_probability st) @ ''\<newline>''
             @ ''- Minimum Fraud Probability: '' @ format_fixed 3 (min_fraud_probability st) @ ''\<newline>''
         | None \<Rightarrow> report)"

text \<open>
  Reading a report back: its lines, and the lines of its risk assessment, which are the
  lines after the heading \<open>Risk Assessment:\<close> up to the first empty line.
\<close>

fun split_lines :: "string \<Rightarrow> string list" where
  "split_lines [] = [[]]"
| "split_lines (c # cs) =
     (if c = CHR 0x0A then [] # split_lines cs
      else (case split_lines cs of l # ls \<Rightarrow> (c # l) # ls | [] \<Rightarrow> [[c]]))"

definition advisory_lines :: "string \<Rightarrow> string list" where
  "advisory_lines report =
     takeWhile (\<lambda>l. l \<noteq> [])
       (tl (dropWhile (\<lambda>l. l \<noteq> ''Risk Assessment:'') (split_lines report)))"

section \<open>pandas operations used by the feature preparer\<close>

text \<open>
  \<open>df[col]\<close> is a Series when one column carries the label and a DataFrame of all the
  columns that carry it when the label is repeated; an absent label raises KeyError.
\<close>

datatype item = Series column | Frame "column list"

definition getitem :: "table \<Rightarrow> string \<Rightarrow> py_error + item" where
  "getitem data col =
     (case filter (\<lambda>(n, c). n = col) data of
        [] \<Rightarrow> Inl KeyError
      | x # xs \<Rightarrow> if xs = [] then Inr (Series (snd x)) else Inr (Frame (map snd (x # xs))))"

text \<open>
  \<open>pd.api.types.is_numeric_dtype\<close>: number and bool dtypes are numeric, object is not, and
  a DataFrame, which has no dtype, is not.
\<close>

fun numeric_dtype :: "column \<Rightarrow> bool" where
  "numeric_dtype (NumCol xs) = True"
| "numeric_dtype (BoolCol bs) = True"
| "numeric_dtype (ObjCol os) = False"

fun is_numeric_dtype :: "item \<Rightarrow> bool" where
  "is_numeric_dtype (Series c) = numeric_dtype c"
| "is_numeric_dtype (Frame cs) = False"

text \<open>
  \<open>pd.to_numeric(x, errors='coerce')\<close>. A number cell stays, a string cell is parsed, and a
  string that does not parse becomes nan. The parser of number literals is pandas' own and
  is a parameter here. A numeric Series is returned as it is; a DataFrame argument raises
  TypeError.
\<close>

type_synonym parser = "string \<Rightarrow> fl option"

fun coerce :: "parser \<Rightarrow> obj \<Rightarrow> fl" where
  "coerce parse (PyNum v) = v"
| "coerce parse (PyStr s) = (case parse s of Some v \<Rightarrow> v | None \<Rightarrow> NaN)"

fun to_numeric :: "parser \<Rightarrow> item \<Rightarrow> py_error + column" where
  "to_numeric parse (Series (NumCol xs)) = Inr (NumCol xs)"
| "to_numeric parse (Series (BoolCol bs)) = Inr (BoolCol bs)"
| "to_numeric parse (Series (ObjCol os)) = Inr (NumCol (map (coerce parse) os))"
| "to_numeric parse (Frame cs) = Inl TypeError"

text \<open>
  \<open>df[col] = v\<close>: every column labelled \<open>col\<close> is replaced; a new label is appended.
\<close>

definition setitem :: "table \<Rightarrow> string \<Rightarrow> column \<Rightarrow> table" where
  "setitem data col v =
     (if col \<in> set (columns data)
      then map (\<lambda>(n, c). if n = col then (n, v) else (n, c)) data
      else data @ [(col, v)])"

text \<open>The column that \<open>df[col] = 0\<close> stores: the integer 0 in every row.\<close>

definition zeros :: "nat \<Rightarrow> column" where
  "zeros k = NumCol (replicate k (Fin 0))"

text \<open>\<open>df.drop(col, axis=1)\<close>: a new table without the columns labelled \<open>col\<close>.\<close>

definition drop_column :: "table \<Rightarrow> string \<Rightarrow> table" where
  "drop_column data col = filter (\<lambda>(n, c). n \<noteq> col) data"

text \<open>\<open>df.fillna(0)\<close>: a new table in which every missing value is 0.\<close>

fun fillna_column :: "column \<Rightarrow> column" where
  "fillna_column (NumCol xs) = NumCol (map (\<lambda>x. if x = NaN then Fin 0 else x) xs)"
| "fillna_column (BoolCol bs) = BoolCol bs"
| "fillna_column (ObjCol os) =
     ObjCol (map (\<lambda>x. if x = PyNum NaN then PyNum (Fin 0) else x) os)"

definition fillna :: "table \<Rightarrow> table" where
  "fillna data = map (\<lambda>(n, c). (n, fillna_column c)) data"

section \<open>Feature preparer (utils.py, prepare_data_for_prediction)\<close>

text \<open>
  The function assigns to columns of a table that its caller may still hold, so tables
  live in a store: a reference is an index into the list of allocated tables, and a new
  table is allocated at the end.
\<close>

type_synonym heap = "table list"
type_synonym ref = nat

definition alloc :: "heap \<Rightarrow> table \<Rightarrow> heap \<times> ref" where
  "alloc h t = (h @ [t], length h)"

text \<open>
  The loop \<open>for col in features_df.columns\<close>. The labels are read once, before the loop;
  each assignment goes to the table that \<open>features_df\<close> refers to.
\<close>

fun coerce_columns :: "parser \<Rightarrow> ref \<Rightarrow> string list \<Rightarrow> heap \<Rightarrow> py_error + heap" where
  "coerce_columns parse features_df [] h = Inr h"
| "coerce_columns parse features_df (col # cols) h =
     (case getitem (h ! features_df) col of
        Inl e \<Rightarrow> Inl e
      | Inr it \<Rightarrow>
          if \<not> is_numeric_dtype it then
            (case to_numeric parse it of
               Inr v \<Rightarrow>
                 coerce_columns parse features_df cols
                   (h[features_df := setitem (h ! features_df) col v])
             | Inl e \<Rightarrow>
                 coerce_columns parse features_df cols
                   (h[features_df := setitem (h ! features_df) col
                                       (zeros (nrows (h ! features_df)))]))
          else coerce_columns parse features_df cols h)"

definition prepare_data_for_prediction ::
  "parser \<Rightarrow> heap \<Rightarrow> ref \<Rightarrow> py_error + (heap \<times> ref \<times> item option)" where
  "prepare_data_for_prediction parse h data =
     (case (if ''Class'' \<in> set (columns (h ! data)) then
              (case getitem (h ! data) ''Class'' of
                 Inl e \<Rightarrow> Inl e
               | Inr labels \<Rightarrow>
                   let (h1, features_df) = alloc h (drop_column (h ! data) ''Class'')
                   in Inr (h1, features_df, Some labels))
            else Inr (h, data, None)) of
        Inl e \<Rightarrow> Inl e
      | Inr (h1, features_df, actual_labels) \<Rightarrow>
          (case coerce_columns parse features_df (columns (h1 ! features_df)) h1 of
             Inl e \<Rightarrow> Inl e
           | Inr h2 \<Rightarrow>
               let (h3, filled) = alloc h2 (fillna (h2 ! features_df))
               in Inr (h3, filled, actual_labels)))"

text \<open>
  What the loop leaves in a column: zeros when its label is repeated, the coerced numbers
  when it is an object column, and the column itself otherwise. \<open>coerced\<close> is the table the
  loop leaves, stated without the loop.
\<close>

fun coerced_column :: "parser \<Rightarrow> nat \<Rightarrow> bool \<Rightarrow> column \<Rightarrow> column" where
  "coerced_column parse k True c = zeros k"
| "coerced_column parse k False (ObjCol os) = NumCol (map (coerce parse) os)"
| "coerced_column parse k False (NumCol xs) = NumCol xs"
| "coerced_column parse k False (BoolCol bs) = BoolCol bs"

definition coerced :: "parser \<Rightarrow> table \<Rightarrow> table" where
  "coerced parse data =
     map (\<lambda>(n, c). (n, coerced_column parse (nrows data)
                          (1 < count_list (columns data) n) c)) data"

text \<open>A column without missing values.\<close>

fun no_missing :: "column \<Rightarrow> bool" where
  "no_missing (NumCol xs) = (NaN \<notin> set xs)"
| "no_missing (BoolCol bs) = True"
| "no_missing (ObjCol os) = (PyNum NaN \<notin> set os)"

text \<open>
  A parser of unsigned decimal integers, which stands for pandas' parser in the examples.
\<close>

definition digit_value :: "char \<Rightarrow> nat" where
  "digit_value c = length (takeWhile (\<lambda>d. d \<noteq> c) ''0123456789'')"

definition parse_digits :: parser where
  "parse_digits s =
     (if s \<noteq> [] \<and> set s \<subseteq> set ''0123456789''
      then Some (Fin (of_nat (foldl (\<lambda>a c. 10 * a + digit_value c) 0 s)))
      else None)"

text \<open>
  The table when the loop has gone through the labels in \<open>S\<close>: the invariant of the loop.
\<close>

definition coerced_upto :: "parser \<Rightarrow> string set \<Rightarrow> table \<Rightarrow> table" where
  "coerced_upto parse S data =
     map (\<lambda>(n, c). if n \<in> S
                    then (n, coerced_column parse (nrows data)
                               (1 < count_list (columns data) n) c)
                    else (n, c)) data"

section \<open>CSV text (pandas to_csv, and reading it back)\<close>

text \<open>
  \<open>to_csv\<close> hands rows of strings to Python's csv writer with minimal quoting and a line
  feed as line terminator. A field is quoted when it holds a comma, a double quote or a
  line feed, and a double quote inside a quoted field is doubled. Whether a carriage return
  makes the writer quote a field depends on the Python release that runs the code (older
  releases quote only the characters of the line terminator): \<open>quotes_cr\<close> says which. A
  row that is one empty field is written as a pair of quotes. Each row ends with a line
  feed.
\<close>

definition needs_quoting :: "bool \<Rightarrow> string \<Rightarrow> bool" where
  "needs_quoting quotes_cr s =
     (\<exists>c \<in> set s. c = CHR '','' \<or> c = CHR 0x22 \<or> c = CHR 0x0A \<or>
                   (quotes_cr \<and> c = CHR 0x0D))"

fun escape_quotes :: "string \<Rightarrow> string" where
  "escape_quotes [] = []"
| "escape_quotes (c # cs) =
     (if c = CHR 0x22 then CHR 0x22 # CHR 0x22 # escape_quotes cs else c # escape_quotes cs)"

definition quote_field :: "bool \<Rightarrow> string \<Rightarrow> string" where
  "quote_field quotes_cr s =
     (if needs_quoting quotes_cr s then CHR 0x22 # escape_quotes s @ [CHR 0x22] else s)"

definition write_row :: "bool \<Rightarrow> string list \<Rightarrow> string" where
  "write_row quotes_cr flds =
     (if flds = [[]] then [CHR 0x22, CHR 0x22]
      else join '','' (map (quote_field quotes_cr) flds))
     @ [CHR 0x0A]"

text \<open>
  The text of a cell. A missing value is written as the empty string; the formatting of a
  number is pandas' own and is a parameter here.
\<close>

type_synonym renderer = "fl \<Rightarrow> string"

fun obj_text :: "renderer \<Rightarrow> obj \<Rightarrow> string" where
  "obj_text render (PyStr s) = s"
| "obj_text render (PyNum v) = (if v = NaN then [] else render v)"

text \<open>
  The text of row \<open>i\<close> of a column. A DataFrame is rectangular, so the row exists in every
  column; for a shorter column the cell is left empty.
\<close>

fun cell_text :: "renderer \<Rightarrow> column \<Rightarrow> nat \<Rightarrow> string" where
  "cell_text render (NumCol xs) i =
     (if i < length xs then (if xs ! i = NaN then [] else render (xs ! i)) else [])"
| "cell_text render (BoolCol bs) i =
     (if i < length bs then (if bs ! i then ''True'' else ''False'') else [])"
| "cell_text render (ObjCol os) i =
     (if i < length os then obj_text render (os ! i) else [])"

text \<open>The rows \<open>to_csv(index=False)\<close> writes: the labels, then every row of the table.\<close>

definition csv_rows :: "renderer \<Rightarrow> table \<Rightarrow> string list list" where
  "csv_rows render data =
     columns data # map (\<lambda>i. map (\<lambda>(n, c). cell_text render c i) data) [0..<nrows data]"

definition to_csv :: "bool \<Rightarrow> renderer \<Rightarrow> table \<Rightarrow> string" where
  "to_csv quotes_cr render data = concat (map (write_row quotes_cr) (csv_rows render data))"

text \<open>
  Reading CSV text back into rows of fields, as \<open>pd.read_csv\<close> and Python's csv reader
  split it, one character at a time: at the start of a field, inside an unquoted field,
  inside quotes, after a quote seen inside quotes, and after a carriage return that ended a
  row. Outside quotes a line feed ends the row and so does a carriage return; a line feed
  right after that carriage return belongs to the same line end. A line without any
  character is skipped, as \<open>read_csv\<close> skips it. \<open>fld\<close> is the field read so far and \<open>row\<close>
  the fields of the current row.
\<close>

datatype pstate = FieldStart | InField | InQuotes | QuoteSeen | AfterCR

fun parse_from :: "pstate \<Rightarrow> string \<Rightarrow> string list \<Rightarrow> string \<Rightarrow> string list list" where
  "parse_from st fld row [] =
     (if (st = FieldStart \<or> st = AfterCR) \<and> row = [] then [] else [row @ [fld]])"
| "parse_from FieldStart fld row (c # cs) =
     (if c = CHR 0x22 then parse_from InQuotes [] row cs
      else if c = CHR '','' then parse_from FieldStart [] (row @ [[]]) cs
      else if c = CHR 0x0A then
        (if row = [] then parse_from FieldStart [] [] cs
         else (row @ [[]]) # parse_from FieldStart [] [] cs)
      else if c = CHR 0x0D then
        (if row = [] then parse_from AfterCR [] [] cs
         else (row @ [[]]) # parse_from AfterCR [] [] cs)
      else parse_from InField [c] row cs)"
| "parse_from InField fld row (c # cs) =
     (if c = CHR '','' then parse_from FieldStart [] (row @ [fld]) cs
      else if c = CHR 0x0A then (row @ [fld]) # parse_from FieldStart [] [] cs
      else if c = CHR 0x0D then (row @ [fld]) # parse_from AfterCR [] [] cs
      else parse_from InField (fld @ [c]) row cs)"
| "parse_from InQuotes fld row (c # cs) =
     (if c = CHR 0x22 then parse_from QuoteSeen fld row cs
      else parse_from InQuotes (fld @ [c]) row cs)"
| "parse_from QuoteSeen fld row (c # cs) =
     (if c = CHR 0x22 then parse_from InQuotes (fld @ [c]) row cs
      else if c = CHR '','' then parse_from FieldStart [] (row @ [fld]) cs
      else if c = CHR 0x0A then (row @ [fld]) # parse_from FieldStart [] [] cs
      else if c = CHR 0x0D then (row @ [fld]) # parse_from AfterCR [] [] cs
      else parse_from InField (fld @ [c]) row cs)"
| "parse_from AfterCR fld row (c # cs) =
     (if c = CHR 0x0A then parse_from FieldStart [] row cs
      else if c = CHR 0x22 then parse_from InQuotes [] row cs
      else if c = CHR '','' then parse_from FieldStart [] (row @ [[]]) cs
      else if c = CHR 0x0D then
        (if row = [] then parse_from AfterCR [] [] cs
         else (row @ [[]]) # parse_from AfterCR [] [] cs)
      else parse_from InField [c] row cs)"

definition parse_csv :: "string \<Rightarrow> string list list" where
  "parse_csv text = parse_from FieldStart [] [] text"

text \<open>The position of the first occurrence of a label in a header.\<close>

fun index_of :: "string \<Rightarrow> string list \<Rightarrow> nat option" where
  "index_of x [] = None"
| "index_of x (y # ys) =
     (if x = y then Some 0 else (case index_of x ys of None \<Rightarrow> None | Some k \<Rightarrow> Some (Suc k)))"

text \<open>
  The fields of one column of parsed CSV text, by the label in the header row; None when
  the text has no header or the header has no such label.
\<close>

definition csv_column :: "string list list \<Rightarrow> string \<Rightarrow> string list option" where
  "csv_column rows label =
     (case rows of
        [] \<Rightarrow> None
      | header # body \<Rightarrow>
          (case index_of label header of
             None \<Rightarrow> None
           | Some k \<Rightarrow> Some (map (\<lambda>row. if k < length row then row ! k else []) body)))"

text \<open>
  A table can be read back from its CSV text when every field with a carriage return is
  written in quotes.
\<close>

definition cr_safe :: "bool \<Rightarrow> renderer \<Rightarrow> table \<Rightarrow> bool" where
  "cr_safe quotes_cr render data =
     (\<forall>row \<in> set (csv_rows render data). \<forall>f \<in> set row.
        CHR 0x0D \<in> set f \<longrightarrow> needs_quoting quotes_cr f)"

section \<open>Request handlers (flask_app.py)\<close>

text \<open>
  \<open>RESULTS_STORE\<close>: the process-wide dictionary from download token to CSV bytes.
\<close>

type_synonym store = "string \<rightharpoonup> string"

text \<open>
  The model object found at start-up. Its \<open>predict\<close> returns the labels or raises; \<open>Inl\<close>
  carries the text of the exception. \<open>predict_proba\<close> is None when the object has no such
  attribute; what it returns is a two-dimensional array, given by its number of columns
  and its rows, or something else.
\<close>

datatype proba_result = Matrix nat "rat list list" | NotMatrix

record model =
  predict_method :: "table \<Rightarrow> string + int list"
  predict_proba_method :: "(table \<Rightarrow> string + proba_result) option"

text \<open>
  What a request finds around it: the loaded model and its path, pandas' \<open>read_csv\<close> (which
  returns a table or raises, \<open>Inl\<close> carrying the text of the exception), pandas' number
  parser and number formatting, whether the csv writer of the Python release quotes a
  carriage return, the token that \<open>secrets.token_urlsafe(16)\<close> draws for this request, and
  the formatted clock reading.
\<close>

record env =
  MODEL :: "model option"
  MODEL_PATH :: "string option"
  read_csv :: "string \<Rightarrow> string + table"
  number_parser :: parser
  number_renderer :: renderer
  csv_quotes_cr :: bool
  token_urlsafe :: string
  clock :: string

text \<open>The uploaded file of a request.\<close>

record upload =
  filename :: string
  content :: string

text \<open>What the template \<open>results.html\<close> is rendered with (the charts are left out).\<close>

record results_page =
  page_metrics :: metrics
  row_count :: nat
  download_token :: string
  page_model_path :: "string option"
  summary :: string

text \<open>
  The outcome of a request: a flashed message (category and text) with a redirect to the
  upload form, the rendered results, a file sent for download, or an exception that leaves
  the handler, which Flask answers with status 500.
\<close>

datatype response =
    Redirect string string
  | ResultsPage results_page
  | SendFile string
  | ServerError py_error

text \<open>
  \<open>df[col] = values\<close> for an array of values: the length must be the length of the index,
  or pandas raises ValueError. A table without columns takes any length.
\<close>

definition assign_values :: "table \<Rightarrow> string \<Rightarrow> column \<Rightarrow> py_error + table" where
  "assign_values data col v =
     (if data \<noteq> [] \<and> col_len v \<noteq> nrows data then Inl ValueError
      else Inr (setitem data col v))"

text \<open>
  \<open>Series.map({0: 'Legitimate', 1: 'Fraudulent'})\<close>: a value that is not a key of the
  dictionary becomes missing. \<open>True\<close> and \<open>False\<close> are equal to 1 and 0 as dictionary keys.
\<close>

fun label_of :: "fl \<Rightarrow> obj" where
  "label_of (Fin r) =
     (if r = 0 then PyStr ''Legitimate'' else if r = 1 then PyStr ''Fraudulent'' else PyNum NaN)"
| "label_of NaN = PyNum NaN"
| "label_of PInf = PyNum NaN"
| "label_of NInf = PyNum NaN"

fun map_labels :: "item \<Rightarrow> py_error + column" where
  "map_labels (Series (NumCol xs)) = Inr (ObjCol (map label_of xs))"
| "map_labels (Series (BoolCol bs)) =
     Inr (ObjCol (map (\<lambda>b. if b then PyStr ''Fraudulent'' else PyStr ''Legitimate'') bs))"
| "map_labels (Series (ObjCol os)) =
     Inr (ObjCol (map (\<lambda>x. case x of PyNum v \<Rightarrow> label_of v | PyStr s \<Rightarrow> PyNum NaN) os))"
| "map_labels (Frame cs) = Inl TypeError"

text \<open>
  Lines 134 to 138 of \<open>predict\<close>: the copy of the uploaded table with the prediction
  column, mapped to its two words, and the probability column when there is one.
\<close>

definition build_results_df :: "table \<Rightarrow> int list \<Rightarrow> rat list option \<Rightarrow> py_error + table" where
  "build_results_df df predictions proba =
     (case assign_values df ''Fraud Prediction'' (NumCol (map (\<lambda>p. Fin (of_int p)) predictions)) of
        Inl e \<Rightarrow> Inl e
      | Inr results_df \<Rightarrow>
          (case getitem results_df ''Fraud Prediction'' of
             Inl e \<Rightarrow> Inl e
           | Inr s \<Rightarrow>
               (case map_labels s of
                  Inl e \<Rightarrow> Inl e
                | Inr mapped \<Rightarrow>
                    (case assign_values results_df ''Fraud Prediction'' mapped of
                       Inl e \<Rightarrow> Inl e
                     | Inr results_df \<Rightarrow>
                         (case proba of
                            None \<Rightarrow> Inr results_df
                          | Some ps \<Rightarrow>
                              assign_values results_df ''Fraud Probability''
                                (NumCol (map Fin ps)))))))"

text \<open>
  The probabilities of the fraud class: the second column of what \<open>predict_proba\<close> returns,
  when the model has the method, the call does not raise, and the result is a
  two-dimensional array with at least two columns.
\<close>

definition fraud_probabilities :: "model \<Rightarrow> table \<Rightarrow> rat list option" where
  "fraud_probabilities m features =
     (case predict_proba_method m of
        None \<Rightarrow> None
      | Some predict_proba \<Rightarrow>
          (case predict_proba features of
             Inl e \<Rightarrow> None
           | Inr NotMatrix \<Rightarrow> None
           | Inr (Matrix k rows) \<Rightarrow>
               if 2 \<le> k then Some (map (\<lambda>r. r ! 1) rows) else None))"

text \<open>
  The handler of \<open>POST /predict\<close>. The uploaded table lives in a store of its own for the
  request, since the feature preparer may assign into it before it is copied for the
  results. The steps after the token is stored (report, charts, template) are taken not to
  raise.
\<close>

definition predict :: "env \<Rightarrow> upload option \<Rightarrow> store \<Rightarrow> response \<times> store" where
  "predict e request RESULTS_STORE =
     (case request of
        None \<Rightarrow> (Redirect ''danger'' ''No file part in request'', RESULTS_STORE)
      | Some file \<Rightarrow>
          if filename file = [] then (Redirect ''warning'' ''No file selected'', RESULTS_STORE)
          else
            (case MODEL e of
               None \<Rightarrow>
                 (Redirect ''danger'' ''Model not available. Please add a trained model file.'',
                  RESULTS_STORE)
             | Some m \<Rightarrow>
                 (case read_csv e (content file) of
                    Inl err \<Rightarrow> (Redirect ''danger'' (''Failed to read CSV: '' @ err), RESULTS_STORE)
                  | Inr parsed \<Rightarrow>
                      let (h, df) = alloc [] parsed;
                          (is_valid, error_message) = validate_csv_data (h ! df)
                      in if \<not> is_valid
                         then (Redirect ''danger'' (''Data validation failed: '' @ error_message),
                               RESULTS_STORE)
                         else
                           (case prepare_data_for_prediction (number_parser e) h df of
                              Inl exn \<Rightarrow> (ServerError exn, RESULTS_STORE)
                            | Inr (h, features_df, actual_labels) \<Rightarrow>
                                (case predict_method m (h ! features_df) of
                                   Inl err \<Rightarrow>
                                     (Redirect ''danger'' (''Model prediction failed: '' @ err),
                                      RESULTS_STORE)
                                 | Inr predictions \<Rightarrow>
                                     let proba = fraud_probabilities m (h ! features_df)
                                     in (case calculate_risk_metrics predictions proba of
                                           Inl exn \<Rightarrow> (ServerError exn, RESULTS_STORE)
                                         | Inr metrics \<Rightarrow>
                                             (case build_results_df (h ! df) predictions proba of
                                                Inl exn \<Rightarrow> (ServerError exn, RESULTS_STORE)
                                              | Inr results_df \<Rightarrow>
                                                  let csv_bytes = to_csv (csv_quotes_cr e) (number_renderer e) results_df;
                                                      token = token_urlsafe e;
                                                      summary =
                                                        generate_summary_report metrics
                                                          (case MODEL_PATH e of
                                                             None \<Rightarrow> ''Unknown''
                                                           | Some p \<Rightarrow> if p = [] then ''Unknown'' else p)
                                                          (clock e)
                                                  in (ResultsPage
                                                        \<lparr> page_metrics = metrics,
                                                          row_count = nrows results_df,
                                                          download_token = token,
                                                          page_model_path = MODEL_PATH e,
                                                          summary = summary \<rparr>,
                                                      RESULTS_STORE(token \<mapsto> csv_bytes)))))))))"

text \<open>The message a stale or unknown download link gets.\<close>

definition expired_token :: response where
  "expired_token =
     Redirect ''warning'' ''Your download link has expired. Please re-run the analysis.''"

text \<open>
  The handler of \<open>GET /download/<token>\<close>. \<open>if not data\<close> is true for an absent token and for
  empty bytes alike.
\<close>

definition download :: "string \<Rightarrow> store \<Rightarrow> response \<times> store" where
  "download token RESULTS_STORE =
     (case RESULTS_STORE token of
        None \<Rightarrow> (expired_token, RESULTS_STORE)
      | Some data \<Rightarrow>
          if data = [] then (expired_token, RESULTS_STORE)
          else (SendFile data, RESULTS_STORE(token := None)))"

text \<open>Every artifact in the store holds at least one byte.\<close>

definition nonempty_artifacts :: "store \<Rightarrow> bool" where
  "nonempty_artifacts s = (\<forall>t d. s t = Some d \<longrightarrow> d \<noteq> [])"

section \<open>An example request\<close>

text \<open>
  A small upload and its surroundings, for running the handlers on a concrete input:
  eight feature columns and an \<open>Amount\<close> column read as text, a model that flags every
  second row, a model whose \<open>predict\<close> raises, and stand-ins for pandas' reader and number
  formatting.
\<close>

definition example_table :: table where
  "example_table =
     [(''V1'', NumCol [Fin 1, Fin 2]), (''V2'', NumCol [Fin 1, Fin 2]),
      (''V3'', NumCol [Fin 1, Fin 2]), (''V4'', NumCol [Fin 1, Fin 2]),
      (''V5'', NumCol [Fin 1, Fin 2]), (''V6'', NumCol [Fin 1, Fin 2]),
      (''V7'', NumCol [Fin 1, Fin 2]), (''V8'', NumCol [Fin 1, NaN]),
      (''Amount'', ObjCol [PyStr ''12'', PyStr ''a,b''])]"

fun example_predict :: "table \<Rightarrow> string + int list" where
  "example_predict t = Inr (map (\<lambda>i. int (i mod 2)) [0..<nrows t])"

fun failing_predict :: "table \<Rightarrow> string + int list" where
  "failing_predict t = Inl ''X has 9 features, but the model is expecting 30 features''"

definition example_model :: model where
  "example_model = \<lparr> predict_method = example_predict, predict_proba_method = None \<rparr>"

definition failing_model :: model where
  "failing_model = \<lparr> predict_method = failing_predict, predict_proba_method = None \<rparr>"

fun example_read_csv :: "string \<Rightarrow> string + table" where
  "example_read_csv text =
     (if text = [] then Inl ''No columns to parse from file'' else Inr example_table)"

fun example_render :: renderer where
  "example_render (Fin r) = str_nat (nat \<lfloor>r\<rfloor>)"
| "example_render NaN = ''nan''"
| "example_render PInf = ''inf''"
| "example_render NInf = ''-inf''"

definition example_env :: env where
  "example_env =
     \<lparr> MODEL = Some example_model,
       MODEL_PATH = Some ''models/random_forest_fraud.pkl'',
       read_csv = example_read_csv,
       number_parser = parse_digits,
       number_renderer = example_render,
       csv_quotes_cr = False,
       token_urlsafe = ''q3Zk0vX8Jm1sT5yRb2NwAg'',
       clock = ''2024-01-01 00:00:00'' \<rparr>"

definition example_upload :: upload where
  "example_upload = \<lparr> filename = ''transactions.csv'', content = ''V1,V2'' \<rparr>"

definition empty_upload :: upload where
  "empty_upload = \<lparr> filename = ''empty.csv'', content = [] \<rparr>"

text \<open>
  An upload with a \<open>Class\<close> column, so that the preparer leaves the table as it was read,
  and a text column whose first cell holds a carriage return.
\<close>

definition labelled_table :: table where
  "labelled_table =
     [(''V1'', NumCol [Fin 1, Fin 2]), (''V2'', NumCol [Fin 1, Fin 2]),
      (''V3'', NumCol [Fin 1, Fin 2]), (''V4'', NumCol [Fin 1, Fin 2]),
      (''V5'', NumCol [Fin 1, Fin 2]), (''V6'', NumCol [Fin 1, Fin 2]),
      (''V7'', NumCol [Fin 1, Fin 2]), (''V8'', NumCol [Fin 1, Fin 2]),
      (''Class'', NumCol [Fin 1, Fin 0]),
      (''Note'', ObjCol [PyStr [CHR ''a'', CHR 0x0D, CHR ''b''], PyStr ''x''])]"

fun labelled_read_csv :: "string \<Rightarrow> string + table" where
  "labelled_read_csv text = Inr labelled_table"

definition labelled_env :: env where
  "labelled_env = example_env \<lparr> read_csv := labelled_read_csv \<rparr>"

definition labelled_results :: table where
  "labelled_results =
     labelled_table @
     [(''Fraud Prediction'', ObjCol [PyStr ''Legitimate'', PyStr ''Fraudulent''])]"

section \<open>Properties of the risk metrics\<close>

lemma np_sum_eq_binary:
  "set predictions \<subseteq> {0, 1} \<Longrightarrow>
     np_sum_eq predictions 1 + np_sum_eq predictions 0 = length predictions"
  by (induction predictions) (auto simp: np_sum_eq_def)

lemma np_sum_eq_le: "np_sum_eq predictions v \<le> length predictions"
  by (simp add: np_sum_eq_def)

lemma np_sum_eq_count: "np_sum_eq predictions v = count_list predictions v"
  by (induction predictions) (auto simp: np_sum_eq_def)

lemma calculate_risk_metrics_None:
  "calculate_risk_metrics predictions None =
     Inr \<lparr> total_transactions = length predictions,
           legitimate_count = np_sum_eq predictions 0,
           fraud_count = np_sum_eq predictions 1,
           fraud_rate = fl_times (np_true_divide (np_sum_eq predictions 1) (length predictions)) 100,
           risk_level =
             (if fl_gt (fl_times (np_true_divide (np_sum_eq predictions 1) (length predictions)) 100) 5
              then ''HIGH''
              else if fl_gt (fl_times (np_true_divide (np_sum_eq predictions 1) (length predictions)) 100) 2
              then ''MEDIUM'' else ''LOW''),
           risk_icon =
             (if fl_gt (fl_times (np_true_divide (np_sum_eq predictions 1) (length predictions)) 100) 5
              then icon_warning
              else if fl_gt (fl_times (np_true_divide (np_sum_eq predictions 1) (length predictions)) 100) 2
              then icon_bolt else icon_check),
           probability = None \<rparr>"
  by (simp add: calculate_risk_metrics_def Let_def)

lemma calculate_risk_metrics_fields:
  assumes "calculate_risk_metrics predictions probabilities = Inr m"
  shows "total_transactions m = length predictions"
    and "legitimate_count m = np_sum_eq predictions 0"
    and "fraud_count m = np_sum_eq predictions 1"
    and "fraud_rate m =
           fl_times (np_true_divide (np_sum_eq predictions 1) (length predictions)) 100"
    and "risk_level m =
           (if fl_gt (fraud_rate m) 5 then ''HIGH''
            else if fl_gt (fraud_rate m) 2 then ''MEDIUM'' else ''LOW'')"
  using assms
  by (auto simp: calculate_risk_metrics_def Let_def split: option.splits sum.splits if_splits)

lemma fl_le_iff_not_gt: "x \<noteq> NaN \<Longrightarrow> fl_le x c = (\<not> fl_gt x c)"
  by (cases x) auto

lemma fl_gt_mono: "fl_gt x c \<Longrightarrow> d \<le> c \<Longrightarrow> fl_gt x d"
  by (cases x) auto

lemma fraud_rate_not_nan:
  assumes "predictions \<noteq> []"
    and "calculate_risk_metrics predictions probabilities = Inr m"
  shows "fraud_rate m \<noteq> NaN"
  using assms by (simp add: calculate_risk_metrics_fields(4) np_true_divide_def)

text \<open>
  C1. On the empty predictions array the code divides 0 by 0 without a guard: numpy
  yields nan (with a warning, no exception), both comparisons with nan are False, and the
  record has total 0, both counts 0, risk level LOW, and fraud rate nan, not 0. When an
  empty probabilities array is passed as well, \<open>np.max\<close> raises ValueError.
\<close>

theorem calculate_risk_metrics_empty:
  "calculate_risk_metrics [] None =
     Inr \<lparr> total_transactions = 0, legitimate_count = 0, fraud_count = 0,
           fraud_rate = NaN, risk_level = ''LOW'', risk_icon = icon_check,
           probability = None \<rparr>
   \<and> calculate_risk_metrics [] (Some []) = Inl ValueError"
  by (simp add: calculate_risk_metrics_def np_sum_eq_def np_true_divide_def
      probability_stats_def)

text \<open>
  C2. For a non-empty predictions array the risk level is HIGH exactly when the fraud rate
  is above 5, MEDIUM exactly when it is above 2 and at most 5, and LOW exactly when it is at
  most 2. Ninety-eight zeros and two ones give rate 2 and LOW; four zeros and a one give
  rate 20 and HIGH.
\<close>

theorem risk_level_thresholds:
  "(predictions \<noteq> [] \<and> calculate_risk_metrics predictions probabilities = Inr m \<longrightarrow>
      (risk_level m = ''HIGH'' \<longleftrightarrow> fl_gt (fraud_rate m) 5) \<and>
      (risk_level m = ''MEDIUM'' \<longleftrightarrow> fl_gt (fraud_rate m) 2 \<and> fl_le (fraud_rate m) 5) \<and>
      (risk_level m = ''LOW'' \<longleftrightarrow> fl_le (fraud_rate m) 2))
   \<and> (\<exists>m. calculate_risk_metrics (replicate 98 0 @ replicate 2 1) None = Inr m \<and>
          fraud_rate m = Fin 2 \<and> risk_level m = ''LOW'')
   \<and> (\<exists>m. calculate_risk_metrics [0, 0, 0, 0, 1] None = Inr m \<and>
          fraud_rate m = Fin 20 \<and> risk_level m = ''HIGH'')"
proof (intro conjI impI)
  assume a: "predictions \<noteq> [] \<and> calculate_risk_metrics predictions probabilities = Inr m"
  then have ne: "predictions \<noteq> []"
    and r: "calculate_risk_metrics predictions probabilities = Inr m"
    by simp_all
  have nn: "fraud_rate m \<noteq> NaN"
    using ne r by (rule fraud_rate_not_nan)
  have lvl: "risk_level m =
      (if fl_gt (fraud_rate m) 5 then ''HIGH''
       else if fl_gt (fraud_rate m) 2 then ''MEDIUM'' else ''LOW'')"
    using r by (rule calculate_risk_metrics_fields(5))
  have up: "fl_gt (fraud_rate m) 5 \<Longrightarrow> fl_gt (fraud_rate m) 2"
    using fl_gt_mono [of "fraud_rate m" 5 2] by simp
  show "risk_level m = ''HIGH'' \<longleftrightarrow> fl_gt (fraud_rate m) 5"
    by (simp add: lvl)
  show "risk_level m = ''MEDIUM'' \<longleftrightarrow> fl_gt (fraud_rate m) 2 \<and> fl_le (fraud_rate m) 5"
    using up by (auto simp: lvl fl_le_iff_not_gt [OF nn])
  show "risk_level m = ''LOW'' \<longleftrightarrow> fl_le (fraud_rate m) 2"
    using up by (auto simp: lvl fl_le_iff_not_gt [OF nn])
next
  show "\<exists>m. calculate_risk_metrics (replicate 98 0 @ replicate 2 1) None = Inr m \<and>
          fraud_rate m = Fin 2 \<and> risk_level m = ''LOW''"
    by (simp add: calculate_risk_metrics_None np_sum_eq_def np_true_divide_def)
next
  show "\<exists>m. calculate_risk_metrics [0, 0, 0, 0, 1] None = Inr m \<and>
          fraud_rate m = Fin 20 \<and> risk_level m = ''HIGH''"
    by (simp add: calculate_risk_metrics_None np_sum_eq_def np_true_divide_def)
qed

theorem risk_level_thresholds_witness:
  "[0, 0, 1] \<noteq> ([] :: int list) \<and>
   calculate_risk_metrics [0, 0, 1] None =
     Inr \<lparr> total_transactions = 3, legitimate_count = 2, fraud_count = 1,
           fraud_rate = Fin (100 / 3), risk_level = ''HIGH'', risk_icon = icon_warning,
           probability = None \<rparr> \<and>
   fl_gt (Fin (100 / 3)) 5 \<and> \<not> fl_le (Fin (100 / 3)) 2"
  using risk_level_thresholds [of "[0, 0, 1]" None
      "\<lparr> total_transactions = 3, legitimate_count = 2, fraud_count = 1,
         fraud_rate = Fin (100 / 3), risk_level = ''HIGH'', risk_icon = icon_warning,
         probability = None \<rparr>"]
  by (simp add: calculate_risk_metrics_None np_sum_eq_def np_true_divide_def)

text \<open>
  C5. For a predictions array of zeros and ones, the total is the length of the array, the
  fraud count is the number of ones, the legitimate count is the number of zeros, and the
  two counts add up to the total. Without probabilities the call returns such a record.
\<close>

theorem counts_add_up:
  "set predictions \<subseteq> {0, 1} \<Longrightarrow>
     (\<exists>m. calculate_risk_metrics predictions None = Inr m) \<and>
     (calculate_risk_metrics predictions probabilities = Inr m \<longrightarrow>
        total_transactions m = length predictions \<and>
        fraud_count m = count_list predictions 1 \<and>
        legitimate_count m = count_list predictions 0 \<and>
        fraud_count m + legitimate_count m = total_transactions m)"
proof (intro conjI impI)
  show "\<exists>m. calculate_risk_metrics predictions None = Inr m"
    by (simp add: calculate_risk_metrics_None)
next
  assume r: "calculate_risk_metrics predictions probabilities = Inr m"
  show "total_transactions m = length predictions"
    using r by (rule calculate_risk_metrics_fields(1))
next
  assume r: "calculate_risk_metrics predictions probabilities = Inr m"
  show "fraud_count m = count_list predictions 1"
    using r by (simp add: calculate_risk_metrics_fields(3) np_sum_eq_count)
next
  assume r: "calculate_risk_metrics predictions probabilities = Inr m"
  show "legitimate_count m = count_list predictions 0"
    using r by (simp add: calculate_risk_metrics_fields(2) np_sum_eq_count)
next
  assume b: "set predictions \<subseteq> {0, 1}"
    and r: "calculate_risk_metrics predictions probabilities = Inr m"
  show "fraud_count m + legitimate_count m = total_transactions m"
    using r np_sum_eq_binary [OF b]
    by (simp add: calculate_risk_metrics_fields(1,2,3))
qed

theorem counts_add_up_witness:
  "set [1, 0, 0, 1, 1] \<subseteq> {0, 1 :: int} \<and>
   calculate_risk_metrics [1, 0, 0, 1, 1] (Some [1 / 2, 1 / 4, 0, 1, 3 / 4]) =
     Inr \<lparr> total_transactions = 5, legitimate_count = 2, fraud_count = 3,
           fraud_rate = Fin 60, risk_level = ''HIGH'', risk_icon = icon_warning,
           probability = Some \<lparr> avg_fraud_probability = Fin (1 / 2),
                                max_fraud_probability = Fin 1,
                                min_fraud_probability = Fin 0 \<rparr> \<rparr> \<and>
   (3::nat) + 2 = 5"
  using counts_add_up [of "[1, 0, 0, 1, 1]" "Some [1 / 2, 1 / 4, 0, 1, 3 / 4]"
      "\<lparr> total_transactions = 5, legitimate_count = 2, fraud_count = 3,
         fraud_rate = Fin 60, risk_level = ''HIGH'', risk_icon = icon_warning,
         probability = Some \<lparr> avg_fraud_probability = Fin (1 / 2),
                              max_fraud_probability = Fin 1,
                              min_fraud_probability = Fin 0 \<rparr> \<rparr>"]
  by (simp add: calculate_risk_metrics_def np_sum_eq_def np_true_divide_def
      probability_stats_def)

section \<open>Properties of the validator\<close>

lemma length_expected_features: "length expected_features = 28"
  by (simp add: expected_features_def)

lemma missing_plus_present:
  "length (filter (\<lambda>col. col \<notin> set cs) expected_features) +
   length (filter (\<lambda>col. col \<in> set cs) expected_features) = 28"
  using sum_length_filter_compl [of "\<lambda>col. col \<notin> set cs" expected_features]
  by (simp add: length_expected_features)

lemma eighty_percent:
  "((of_nat a :: rat) < of_nat n * (8 / 10)) = (5 * a < 4 * n)"
proof -
  have "((of_nat a :: rat) < of_nat n * (8 / 10)) = ((of_nat (5 * a) :: rat) < of_nat (4 * n))"
    by (simp add: field_simps)
  also have "\<dots> = (5 * a < 4 * n)"
    by (rule of_nat_less_iff)
  finally show ?thesis .
qed

text \<open>
  C4. A table with at least 5 columns, at least 9 of the 28 canonical feature names among
  its column labels and at least 80 percent number-typed columns passes validation. The
  failure rules apply in order: fewer than 5 columns fails first; otherwise more than 20
  absent canonical names fails with the list of the first five; otherwise fewer than 80
  percent number-typed columns fails.
\<close>

theorem validate_csv_data_rules:
  "(5 \<le> length data \<and>
    9 \<le> length (filter (\<lambda>col. col \<in> set (columns data)) expected_features) \<and>
    4 * length data \<le> 5 * length (filter (\<lambda>(n, c). is_np_number c) data) \<longrightarrow>
      validate_csv_data data = (True, ''Data validation passed''))
   \<and> (length data < 5 \<longrightarrow>
      validate_csv_data data = (False, ''CSV must contain at least 5 columns''))
   \<and> (5 \<le> length data \<and>
      20 < length (filter (\<lambda>col. col \<notin> set (columns data)) expected_features) \<longrightarrow>
      validate_csv_data data =
        (False, ''Missing many expected feature columns: '' @
                py_repr_list (take 5 (filter (\<lambda>col. col \<notin> set (columns data)) expected_features)) @
                ''...''))
   \<and> (5 \<le> length data \<and>
      length (filter (\<lambda>col. col \<notin> set (columns data)) expected_features) \<le> 20 \<and>
      5 * length (filter (\<lambda>(n, c). is_np_number c) data) < 4 * length data \<longrightarrow>
      validate_csv_data data = (False, ''Most columns should be numeric''))
   \<and> length expected_features = 28"
proof (intro conjI impI)
  assume a: "5 \<le> length data \<and>
    9 \<le> length (filter (\<lambda>col. col \<in> set (columns data)) expected_features) \<and>
    4 * length data \<le> 5 * length (filter (\<lambda>(n, c). is_np_number c) data)"
  have "length (filter (\<lambda>col. col \<notin> set (columns data)) expected_features) \<le> 20"
    using a missing_plus_present [of "columns data"] by linarith
  then show "validate_csv_data data = (True, ''Data validation passed'')"
    using a by (simp add: validate_csv_data_def Let_def eighty_percent columns_def)
next
  assume "length data < 5"
  then show "validate_csv_data data = (False, ''CSV must contain at least 5 columns'')"
    by (simp add: validate_csv_data_def columns_def)
next
  assume "5 \<le> length data \<and>
      20 < length (filter (\<lambda>col. col \<notin> set (columns data)) expected_features)"
  then show "validate_csv_data data =
        (False, ''Missing many expected feature columns: '' @
                py_repr_list (take 5 (filter (\<lambda>col. col \<notin> set (columns data)) expected_features)) @
                ''...'')"
    by (simp add: validate_csv_data_def Let_def columns_def)
next
  assume "5 \<le> length data \<and>
      length (filter (\<lambda>col. col \<notin> set (columns data)) expected_features) \<le> 20 \<and>
      5 * length (filter (\<lambda>(n, c). is_np_number c) data) < 4 * length data"
  then show "validate_csv_data data = (False, ''Most columns should be numeric'')"
    by (simp add: validate_csv_data_def Let_def eighty_percent columns_def)
next
  show "length expected_features = 28"
    by (rule length_expected_features)
qed

lemma expected_features_eq: "expected_features = [''V1'', ''V2'', ''V3'', ''V4'', ''V5'', ''V6'', ''V7'', ''V8'', ''V9'',
  ''V10'', ''V11'', ''V12'', ''V13'', ''V14'', ''V15'', ''V16'', ''V17'',
  ''V18'', ''V19'', ''V20'', ''V21'', ''V22'', ''V23'', ''V24'', ''V25'',
  ''V26'', ''V27'', ''V28'']"
  by code_simp

theorem validate_csv_data_rules_witness:
  "validate_csv_data
     [(''V1'', NumCol [Fin 1]), (''V2'', NumCol [Fin 1]), (''V3'', NumCol [Fin 1]),
      (''V4'', NumCol [Fin 1]), (''V5'', NumCol [Fin 1]), (''V6'', NumCol [Fin 1]),
      (''V7'', NumCol [Fin 1]), (''V8'', NumCol [Fin 1]), (''V9'', NumCol [Fin 1]),
      (''Amount'', NumCol [Fin 1]), (''Note'', ObjCol [PyStr ''ok''])]
     = (True, ''Data validation passed'')
   \<and> validate_csv_data [(''V1'', NumCol [Fin 1])]
     = (False, ''CSV must contain at least 5 columns'')
   \<and> fst (validate_csv_data
     [(''a'', NumCol [Fin 1]), (''b'', NumCol [Fin 1]), (''c'', NumCol [Fin 1]),
      (''d'', NumCol [Fin 1]), (''e'', NumCol [Fin 1])]) = False
   \<and> validate_csv_data
     [(''V1'', ObjCol []), (''V2'', ObjCol []), (''V3'', NumCol []),
      (''V4'', NumCol []), (''V5'', NumCol []), (''V6'', NumCol []),
      (''V7'', NumCol []), (''V8'', NumCol []), (''V9'', NumCol [])]
     = (False, ''Most columns should be numeric'')"
  using validate_csv_data_rules [of
     "[(''V1'', NumCol [Fin 1]), (''V2'', NumCol [Fin 1]), (''V3'', NumCol [Fin 1]),
      (''V4'', NumCol [Fin 1]), (''V5'', NumCol [Fin 1]), (''V6'', NumCol [Fin 1]),
      (''V7'', NumCol [Fin 1]), (''V8'', NumCol [Fin 1]), (''V9'', NumCol [Fin 1]),
      (''Amount'', NumCol [Fin 1]), (''Note'', ObjCol [PyStr ''ok''])]"]
    validate_csv_data_rules [of "[(''V1'', NumCol [Fin 1])]"]
    validate_csv_data_rules [of
     "[(''a'', NumCol [Fin 1]), (''b'', NumCol [Fin 1]), (''c'', NumCol [Fin 1]),
      (''d'', NumCol [Fin 1]), (''e'', NumCol [Fin 1])]"]
    validate_csv_data_rules [of
     "[(''V1'', ObjCol []), (''V2'', ObjCol []), (''V3'', NumCol []),
      (''V4'', NumCol []), (''V5'', NumCol []), (''V6'', NumCol []),
      (''V7'', NumCol []), (''V8'', NumCol []), (''V9'', NumCol [])]"]
  by (simp add: expected_features_eq columns_def)

section \<open>Properties of the report generator\<close>

lemma digit_char_in: "d < 10 \<Longrightarrow> digit_char d \<in> set ''0123456789''"
proof -
  assume "d < 10"
  then have "d < length ''0123456789''" by simp
  then show ?thesis unfolding digit_char_def by (rule nth_mem)
qed

lemma str_nat_digits: "set (str_nat n) \<subseteq> set ''0123456789''"
proof (induction n rule: str_nat.induct)
  case (1 n)
  show ?case
  proof (cases "n < 10")
    case True
    then show ?thesis
      using digit_char_in [of n] by (subst str_nat.simps) simp
  next
    case False
    have "n mod 10 < 10" by simp
    then have "digit_char (n mod 10) \<in> set ''0123456789''" by (rule digit_char_in)
    then show ?thesis
      using False "1.IH" by (subst str_nat.simps) simp
  qed
qed

lemma length_str_nat: "0 < k \<Longrightarrow> n < 10 ^ k \<Longrightarrow> length (str_nat n) \<le> k"
proof (induction n arbitrary: k rule: str_nat.induct)
  case (1 n)
  show ?case
  proof (cases "n < 10")
    case True
    then show ?thesis using "1.prems" by (subst str_nat.simps) simp
  next
    case False
    from "1.prems" obtain j where k: "k = Suc j"
      by (cases k) auto
    have j: "0 < j"
    proof (rule ccontr)
      assume "\<not> 0 < j"
      then have "k = 1" using k by simp
      then show False using "1.prems"(2) False by simp
    qed
    have "n div 10 < 10 ^ j"
      using "1.prems"(2) k by (simp add: less_mult_imp_div_less mult.commute)
    then have "length (str_nat (n div 10)) \<le> j"
      using False j "1.IH" by simp
    then show ?thesis using False k by (subst str_nat.simps) simp
  qed
qed

lemma zero_pad_digits: "set s \<subseteq> set ''0123456789'' \<Longrightarrow> set (zero_pad w s) \<subseteq> set ''0123456789''"
  by (auto simp: zero_pad_def)

lemma length_zero_pad: "length s \<le> w \<Longrightarrow> length (zero_pad w s) = w"
  by (simp add: zero_pad_def)

lemma format_fixed_shape:
  assumes "0 < k"
  shows "\<exists>a b. format_fixed k (Fin r) = a @ ''.'' @ b \<and> length b = k \<and>
            set b \<subseteq> set ''0123456789''"
proof -
  define q where "q = nat (round_half_even (\<bar>r\<bar> * 10 ^ k))"
  define b where "b = zero_pad k (str_nat (q mod 10 ^ k))"
  define a where "a = (if r < 0 then ''-'' else []) @ str_nat (q div 10 ^ k)"
  have "q mod 10 ^ k < 10 ^ k" by simp
  then have "length (str_nat (q mod 10 ^ k)) \<le> k"
    using assms by (rule length_str_nat [rotated])
  then have "length b = k"
    unfolding b_def by (rule length_zero_pad)
  moreover have "set b \<subseteq> set ''0123456789''"
    unfolding b_def by (rule zero_pad_digits) (rule str_nat_digits)
  moreover have "format_fixed k (Fin r) = a @ ''.'' @ b"
    by (simp add: a_def b_def q_def Let_def)
  ultimately show ?thesis by blast
qed

lemma generate_summary_report_eq:
  "generate_summary_report m model_path now =
     report_header m model_path now
     @ (if risk_level m = ''HIGH'' then
          ''- HIGH RISK: Fraud rate is above 5%. Immediate attention required.\<newline>''
          @ ''- Consider implementing additional security measures.\<newline>''
          @ ''- Review recent system changes and access patterns.\<newline>''
        else if risk_level m = ''MEDIUM'' then
          ''- MEDIUM RISK: Fraud rate is between 2-5%. Monitor closely.\<newline>''
          @ ''- Review suspicious transactions manually.\<newline>''
          @ ''- Consider increasing monitoring frequency.\<newline>''
        else
          ''- LOW RISK: Fraud rate is below 2%. Normal operations.\<newline>''
          @ ''- Continue with current security protocols.\<newline>'')
     @ (case probability m of
          None \<Rightarrow> []
        | Some st \<Rightarrow>
            ''\<newline>Probability Analysis:\<newline>''
            @ ''- Average Fraud Probability: '' @ format_fixed 3 (avg_fraud_probability st) @ ''\<newline>''
            @ ''- Maximum Fraud Probability: '' @ format_fixed 3 (max_fraud_probability st) @ ''\<newline>''
            @ ''- Minimum Fraud Probability: '' @ format_fixed 3 (min_fraud_probability st) @ ''\<newline>'')"
  unfolding generate_summary_report_def Let_def
  by (cases "probability m"; cases "risk_level m = ''HIGH''"; cases "risk_level m = ''MEDIUM''")
     (simp_all only: simp_thms if_True if_False option.case append_assoc append_Nil2)


text \<open>
  C7. The report is exactly the header, then the advisory sentences of the risk level,
  verbatim, then the probability analysis. The advisory sentences are three for HIGH, three
  for MEDIUM, and two for any other level, which is LOW. The probability analysis is empty
  when the record has no probability statistics; otherwise it is the block that gives mean,
  maximum and minimum in the format \<open>.3f\<close>. A finite value in that format has exactly three
  decimal digits after the point.
\<close>

theorem summary_report_text:
  "(risk_level m = ''HIGH'' \<longrightarrow>
      generate_summary_report m model_path now =
         report_header m model_path now
         @ ''- HIGH RISK: Fraud rate is above 5%. Immediate attention required.\<newline>''
         @ ''- Consider implementing additional security measures.\<newline>''
         @ ''- Review recent system changes and access patterns.\<newline>''
         @ (case probability m of
            None \<Rightarrow> []
          | Some st \<Rightarrow>
              ''\<newline>Probability Analysis:\<newline>''
              @ ''- Average Fraud Probability: '' @ format_fixed 3 (avg_fraud_probability st) @ ''\<newline>''
              @ ''- Maximum Fraud Probability: '' @ format_fixed 3 (max_fraud_probability st) @ ''\<newline>''
              @ ''- Minimum Fraud Probability: '' @ format_fixed 3 (min_fraud_probability st) @ ''\<newline>''))
   \<and> (risk_level m = ''MEDIUM'' \<longrightarrow>
      generate_summary_report m model_path now =
         report_header m model_path now
         @ ''- MEDIUM RISK: Fraud rate is between 2-5%. Monitor closely.\<newline>''
         @ ''- Review suspicious transactions manually.\<newline>''
         @ ''- Consider increasing monitoring frequency.\<newline>''
         @ (case probability m of
            None \<Rightarrow> []
          | Some st \<Rightarrow>
              ''\<newline>Probability Analysis:\<newline>''
              @ ''- Average Fraud Probability: '' @ format_fixed 3 (avg_fraud_probability st) @ ''\<newline>''
              @ ''- Maximum Fraud Probability: '' @ format_fixed 3 (max_fraud_probability st) @ ''\<newline>''
              @ ''- Minimum Fraud Probability: '' @ format_fixed 3 (min_fraud_probability st) @ ''\<newline>''))
   \<and> (risk_level m \<noteq> ''HIGH'' \<and> risk_level m \<noteq> ''MEDIUM'' \<longrightarrow>
      generate_summary_report m model_path now =
         report_header m model_path now
         @ ''- LOW RISK: Fraud rate is below 2%. Normal operations.\<newline>''
         @ ''- Continue with current security protocols.\<newline>''
         @ (case probability m of
            None \<Rightarrow> []
          | Some st \<Rightarrow>
              ''\<newline>Probability Analysis:\<newline>''
              @ ''- Average Fraud Probability: '' @ format_fixed 3 (avg_fraud_probability st) @ ''\<newline>''
              @ ''- Maximum Fraud Probability: '' @ format_fixed 3 (max_fraud_probability st) @ ''\<newline>''
              @ ''- Minimum Fraud Probability: '' @ format_fixed 3 (min_fraud_probability st) @ ''\<newline>''))
   \<and> (\<exists>a b. format_fixed 3 (Fin r) = a @ ''.'' @ b \<and> length b = 3 \<and>
          set b \<subseteq> set ''0123456789'')"
proof (intro conjI impI)
  assume h: "risk_level m = ''HIGH''"
  show "generate_summary_report m model_path now =
         report_header m model_path now
         @ ''- HIGH RISK: Fraud rate is above 5%. Immediate attention required.\<newline>''
         @ ''- Consider implementing additional security measures.\<newline>''
         @ ''- Review recent system changes and access patterns.\<newline>''
         @ (case probability m of
            None \<Rightarrow> []
          | Some st \<Rightarrow>
              ''\<newline>Probability Analysis:\<newline>''
              @ ''- Average Fraud Probability: '' @ format_fixed 3 (avg_fraud_probability st) @ ''\<newline>''
              @ ''- Maximum Fraud Probability: '' @ format_fixed 3 (max_fraud_probability st) @ ''\<newline>''
              @ ''- Minimum Fraud Probability: '' @ format_fixed 3 (min_fraud_probability st) @ ''\<newline>'')"
    unfolding generate_summary_report_eq h
    by (simp only: simp_thms if_True append_assoc)
next
  assume h: "risk_level m = ''MEDIUM''"
  have ne: "''MEDIUM'' \<noteq> ''HIGH''" by simp
  show "generate_summary_report m model_path now =
         report_header m model_path now
         @ ''- MEDIUM RISK: Fraud rate is between 2-5%. Monitor closely.\<newline>''
         @ ''- Review suspicious transactions manually.\<newline>''
         @ ''- Consider increasing monitoring frequency.\<newline>''
         @ (case probability m of
            None \<Rightarrow> []
          | Some st \<Rightarrow>
              ''\<newline>Probability Analysis:\<newline>''
              @ ''- Average Fraud Probability: '' @ format_fixed 3 (avg_fraud_probability st) @ ''\<newline>''
              @ ''- Maximum Fraud Probability: '' @ format_fixed 3 (max_fraud_probability st) @ ''\<newline>''
              @ ''- Minimum Fraud Probability: '' @ format_fixed 3 (min_fraud_probability st) @ ''\<newline>'')"
    unfolding generate_summary_report_eq h
    by (simp only: ne simp_thms if_True if_False append_assoc)
next
  assume h: "risk_level m \<noteq> ''HIGH'' \<and> risk_level m \<noteq> ''MEDIUM''"
  show "generate_summary_report m model_path now =
         report_header m model_path now
         @ ''- LOW RISK: Fraud rate is below 2%. Normal operations.\<newline>''
         @ ''- Continue with current security protocols.\<newline>''
         @ (case probability m of
            None \<Rightarrow> []
          | Some st \<Rightarrow>
              ''\<newline>Probability Analysis:\<newline>''
              @ ''- Average Fraud Probability: '' @ format_fixed 3 (avg_fraud_probability st) @ ''\<newline>''
              @ ''- Maximum Fraud Probability: '' @ format_fixed 3 (max_fraud_probability st) @ ''\<newline>''
              @ ''- Minimum Fraud Probability: '' @ format_fixed 3 (min_fraud_probability st) @ ''\<newline>'')"
    unfolding generate_summary_report_eq
    by (simp only: h simp_thms if_True if_False append_assoc)
next
  show "\<exists>a b. format_fixed 3 (Fin r) = a @ ''.'' @ b \<and> length b = 3 \<and>
          set b \<subseteq> set ''0123456789''"
    by (rule format_fixed_shape) simp
qed

theorem summary_report_text_witness:
  "generate_summary_report
       \<lparr> total_transactions = 3, legitimate_count = 2, fraud_count = 1,
         fraud_rate = Fin (100 / 3), risk_level = ''HIGH'', risk_icon = icon_warning,
         probability = Some \<lparr> avg_fraud_probability = Fin (1 / 2),
                              max_fraud_probability = Fin 1,
                              min_fraud_probability = Fin 0 \<rparr> \<rparr>
       ''models/random_forest_fraud.pkl'' ''2024-01-01 00:00:00'' =
     report_header
       \<lparr> total_transactions = 3, legitimate_count = 2, fraud_count = 1,
         fraud_rate = Fin (100 / 3), risk_level = ''HIGH'', risk_icon = icon_warning,
         probability = Some \<lparr> avg_fraud_probability = Fin (1 / 2),
                              max_fraud_probability = Fin 1,
                              min_fraud_probability = Fin 0 \<rparr> \<rparr>
       ''models/random_forest_fraud.pkl'' ''2024-01-01 00:00:00''
     @ ''- HIGH RISK: Fraud rate is above 5%. Immediate attention required.\<newline>''
     @ ''- Consider implementing additional security measures.\<newline>''
     @ ''- Review recent system changes and access patterns.\<newline>''
     @ ''\<newline>Probability Analysis:\<newline>''
     @ ''- Average Fraud Probability: 0.500\<newline>''
     @ ''- Maximum Fraud Probability: 1.000\<newline>''
     @ ''- Minimum Fraud Probability: 0.000\<newline>''
   \<and> generate_summary_report
       \<lparr> total_transactions = 100, legitimate_count = 99, fraud_count = 1,
         fraud_rate = Fin 1, risk_level = ''LOW'', risk_icon = icon_check,
         probability = None \<rparr>
       ''models/random_forest_fraud.pkl'' ''2024-01-01 00:00:00'' =
     report_header
       \<lparr> total_transactions = 100, legitimate_count = 99, fraud_count = 1,
         fraud_rate = Fin 1, risk_level = ''LOW'', risk_icon = icon_check,
         probability = None \<rparr>
       ''models/random_forest_fraud.pkl'' ''2024-01-01 00:00:00''
     @ ''- LOW RISK: Fraud rate is below 2%. Normal operations.\<newline>''
     @ ''- Continue with current security protocols.\<newline>''"
proof -
  let ?st = "\<lparr> avg_fraud_probability = Fin (1 / 2), max_fraud_probability = Fin 1,
               min_fraud_probability = Fin 0 \<rparr>"
  let ?m = "\<lparr> total_transactions = 3, legitimate_count = 2, fraud_count = 1,
         fraud_rate = Fin (100 / 3), risk_level = ''HIGH'', risk_icon = icon_warning,
         probability = Some ?st \<rparr>"
  let ?l = "\<lparr> total_transactions = 100, legitimate_count = 99, fraud_count = 1,
         fraud_rate = Fin 1, risk_level = ''LOW'', risk_icon = icon_check,
         probability = None \<rparr>"
  have lvl: "risk_level ?m = ''HIGH''" and pr: "probability ?m = Some ?st"
    by simp_all
  have low: "risk_level ?l \<noteq> ''HIGH'' \<and> risk_level ?l \<noteq> ''MEDIUM''"
    and npr: "probability ?l = None"
    by simp_all
  have f1: "format_fixed 3 (Fin (1 / 2)) = ''0.500''"
    and f2: "format_fixed 3 (Fin 1) = ''1.000''"
    and f3: "format_fixed 3 (Fin 0) = ''0.000''"
    by code_simp+
  note t = summary_report_text [of ?m "''models/random_forest_fraud.pkl''"
      "''2024-01-01 00:00:00''" 0]
  note u = summary_report_text [of ?l "''models/random_forest_fraud.pkl''"
      "''2024-01-01 00:00:00''" 0]
  from t lvl have "generate_summary_report ?m ''models/random_forest_fraud.pkl''
       ''2024-01-01 00:00:00'' =
     report_header ?m ''models/random_forest_fraud.pkl'' ''2024-01-01 00:00:00''
     @ ''- HIGH RISK: Fraud rate is above 5%. Immediate attention required.\<newline>''
     @ ''- Consider implementing additional security measures.\<newline>''
     @ ''- Review recent system changes and access patterns.\<newline>''
     @ (case probability ?m of
            None \<Rightarrow> []
          | Some st \<Rightarrow>
              ''\<newline>Probability Analysis:\<newline>''
              @ ''- Average Fraud Probability: '' @ format_fixed 3 (avg_fraud_probability st) @ ''\<newline>''
              @ ''- Maximum Fraud Probability: '' @ format_fixed 3 (max_fraud_probability st) @ ''\<newline>''
              @ ''- Minimum Fraud Probability: '' @ format_fixed 3 (min_fraud_probability st) @ ''\<newline>'')"
    by blast
  then have a: "generate_summary_report ?m ''models/random_forest_fraud.pkl''
       ''2024-01-01 00:00:00'' =
     report_header ?m ''models/random_forest_fraud.pkl'' ''2024-01-01 00:00:00''
     @ ''- HIGH RISK: Fraud rate is above 5%. Immediate attention required.\<newline>''
     @ ''- Consider implementing additional security measures.\<newline>''
     @ ''- Review recent system changes and access patterns.\<newline>''
     @ ''\<newline>Probability Analysis:\<newline>''
     @ ''- Average Fraud Probability: 0.500\<newline>''
     @ ''- Maximum Fraud Probability: 1.000\<newline>''
     @ ''- Minimum Fraud Probability: 0.000\<newline>''"
    by (simp only: pr option.case prob_stats.select_convs f1 f2 f3 append.simps)
  from u low have "generate_summary_report ?l ''models/random_forest_fraud.pkl''
       ''2024-01-01 00:00:00'' =
     report_header ?l ''models/random_forest_fraud.pkl'' ''2024-01-01 00:00:00''
     @ ''- LOW RISK: Fraud rate is below 2%. Normal operations.\<newline>''
     @ ''- Continue with current security protocols.\<newline>''
     @ (case probability ?l of
            None \<Rightarrow> []
          | Some st \<Rightarrow>
              ''\<newline>Probability Analysis:\<newline>''
              @ ''- Average Fraud Probability: '' @ format_fixed 3 (avg_fraud_probability st) @ ''\<newline>''
              @ ''- Maximum Fraud Probability: '' @ format_fixed 3 (max_fraud_probability st) @ ''\<newline>''
              @ ''- Minimum Fraud Probability: '' @ format_fixed 3 (min_fraud_probability st) @ ''\<newline>'')"
    by blast
  then have b: "generate_summary_report ?l ''models/random_forest_fraud.pkl''
       ''2024-01-01 00:00:00'' =
     report_header ?l ''models/random_forest_fraud.pkl'' ''2024-01-01 00:00:00''
     @ ''- LOW RISK: Fraud rate is below 2%. Normal operations.\<newline>''
     @ ''- Continue with current security protocols.\<newline>''"
    by (simp only: npr option.case append_Nil2)
  from a b show ?thesis by (rule conjI)
qed

text \<open>
  C7 as stated asks for three advisory sentences at every level. The report of a LOW
  record has two.
\<close>

theorem summary_report_low_two_sentences:
  "advisory_lines (generate_summary_report
       \<lparr> total_transactions = 100, legitimate_count = 99, fraud_count = 1,
         fraud_rate = Fin 1, risk_level = ''LOW'', risk_icon = icon_check,
         probability = None \<rparr>
       ''models/random_forest_fraud.pkl'' ''2024-01-01 00:00:00'') =
     [''- LOW RISK: Fraud rate is below 2%. Normal operations.'',
      ''- Continue with current security protocols.'']"
  by code_simp

section \<open>Properties of the feature preparer\<close>

lemma length_filter_label:
  "length (filter (\<lambda>(n, c). n = col) data) = count_list (columns data) col"
  by (induction data) (auto simp: columns_def)

lemma count_list_pos: "col \<in> set xs \<Longrightarrow> 0 < count_list xs col"
  by (induction xs) auto

lemma getitem_unique:
  assumes "count_list (columns data) col = 1"
  shows "\<exists>c. getitem data col = Inr (Series c) \<and>
            (\<forall>c'. (col, c') \<in> set data \<longrightarrow> c' = c)"
proof -
  have len: "length (filter (\<lambda>(n, c). n = col) data) = 1"
    using assms by (simp add: length_filter_label)
  then obtain x where x: "filter (\<lambda>(n, c). n = col) data = [x]"
    by (cases "filter (\<lambda>(n, c). n = col) data") auto
  have g: "getitem data col = Inr (Series (snd x))"
    by (simp add: getitem_def x)
  have "\<forall>c'. (col, c') \<in> set data \<longrightarrow> c' = snd x"
  proof (intro allI impI)
    fix c' assume "(col, c') \<in> set data"
    then have "(col, c') \<in> set (filter (\<lambda>(n, c). n = col) data)" by simp
    then show "c' = snd x" unfolding x by auto
  qed
  with g show ?thesis by blast
qed

lemma getitem_repeated:
  assumes "1 < count_list (columns data) col"
  shows "\<exists>cs. getitem data col = Inr (Frame cs)"
proof -
  have len: "1 < length (filter (\<lambda>(n, c). n = col) data)"
    using assms by (simp add: length_filter_label)
  then obtain x y ys where "filter (\<lambda>(n, c). n = col) data = x # y # ys"
    by (cases "filter (\<lambda>(n, c). n = col) data"; cases "tl (filter (\<lambda>(n, c). n = col) data)") auto
  then show ?thesis by (simp add: getitem_def)
qed

lemma columns_coerced_upto [simp]: "columns (coerced_upto parse S data) = columns data"
  by (auto simp: coerced_upto_def columns_def split: prod.splits)

lemma col_len_coerced_column:
  "d \<or> col_len c = k \<Longrightarrow> col_len (coerced_column parse k d c) = k"
  by (cases c; cases d) (auto simp: zeros_def)

lemma col_len_coerced_column_False [simp]:
  "col_len (coerced_column parse k False c) = col_len c"
  by (cases c) auto

lemma col_len_coerced_column_True [simp]:
  "col_len (coerced_column parse k True c) = k"
  by (simp add: zeros_def)

lemma nrows_coerced_upto [simp]: "nrows (coerced_upto parse S data) = nrows data"
proof (cases data)
  case Nil
  then show ?thesis by (simp add: coerced_upto_def)
next
  case (Cons x rest)
  obtain n c where x: "x = (n, c)" by (cases x)
  show ?thesis
    unfolding Cons x coerced_upto_def
    by (cases "1 < count_list (columns ((n, c) # rest)) n") (simp_all add: zeros_def)
qed

lemma coerced_column_idem [simp]:
  "coerced_column parse k d (coerced_column parse k d c) = coerced_column parse k d c"
  by (cases c; cases d) (auto simp: zeros_def)

lemma coerced_upto_insert:
  "coerced_upto parse S (coerced_upto parse {col} data) = coerced_upto parse (insert col S) data"
proof -
  have "coerced_upto parse S (coerced_upto parse {col} data) =
        map (\<lambda>(n, c). if n \<in> S
                    then (n, coerced_column parse (nrows data)
                               (1 < count_list (columns data) n) c)
                    else (n, c)) (coerced_upto parse {col} data)"
    by (subst coerced_upto_def) (simp add: case_prod_beta)
  also have "\<dots> = coerced_upto parse (insert col S) data"
    by (simp add: coerced_upto_def case_prod_beta)
  finally show ?thesis .
qed

lemma coerced_upto_empty [simp]: "coerced_upto parse {} data = data"
  by (simp add: coerced_upto_def)

lemma coerced_upto_all:
  "set (columns data) \<subseteq> S \<Longrightarrow> coerced_upto parse S data = coerced parse data"
  unfolding coerced_upto_def coerced_def columns_def
  by (rule map_cong) auto

lemma setitem_present:
  "col \<in> set (columns data) \<Longrightarrow>
     setitem data col v = map (\<lambda>(n, c). if n = col then (n, v) else (n, c)) data"
  by (simp add: setitem_def)

lemma coerced_upto_single:
  "coerced_upto parse {col} data =
     map (\<lambda>(n, c). if n = col
                    then (n, coerced_column parse (nrows data)
                               (1 < count_list (columns data) col) c)
                    else (n, c)) data"
  unfolding coerced_upto_def by (rule map_cong) auto

lemma loop_body_table:
  assumes "col \<in> set (columns data)"
  shows "\<exists>it. getitem data col = Inr it \<and>
           (if \<not> is_numeric_dtype it
            then (case to_numeric parse it of
                    Inr v \<Rightarrow> setitem data col v
                  | Inl e \<Rightarrow> setitem data col (zeros (nrows data)))
            else data) = coerced_upto parse {col} data"
proof (cases "1 < count_list (columns data) col")
  case True
  then obtain cs where g: "getitem data col = Inr (Frame cs)"
    using getitem_repeated by blast
  have "setitem data col (zeros (nrows data)) = coerced_upto parse {col} data"
    unfolding setitem_present [OF assms] coerced_upto_single
    using True by (intro map_cong) auto
  with g show ?thesis by simp
next
  case False
  then have one: "count_list (columns data) col = 1"
    using count_list_pos [OF assms] by simp
  then obtain c where g: "getitem data col = Inr (Series c)"
    and u: "\<forall>c'. (col, c') \<in> set data \<longrightarrow> c' = c"
    using getitem_unique by blast
  show ?thesis
  proof (cases c)
    case (NumCol xs)
    have "coerced_upto parse {col} data = map (\<lambda>x. x) data"
      unfolding coerced_upto_single using False u NumCol
      by (intro map_cong) auto
    then show ?thesis using g NumCol by simp
  next
    case (BoolCol bs)
    have "coerced_upto parse {col} data = map (\<lambda>x. x) data"
      unfolding coerced_upto_single using False u BoolCol
      by (intro map_cong) auto
    then show ?thesis using g BoolCol by simp
  next
    case (ObjCol os)
    have "setitem data col (NumCol (map (coerce parse) os)) = coerced_upto parse {col} data"
      unfolding setitem_present [OF assms] coerced_upto_single using False u ObjCol
      by (intro map_cong) auto
    then show ?thesis using g ObjCol by simp
  qed
qed

lemma coerce_columns_step:
  assumes "col \<in> set (columns (h ! f))"
  shows "coerce_columns parse f (col # cols) h =
           coerce_columns parse f cols (h[f := coerced_upto parse {col} (h ! f)])"
proof -
  obtain it where g: "getitem (h ! f) col = Inr it"
    and e: "(if \<not> is_numeric_dtype it
            then (case to_numeric parse it of
                    Inr v \<Rightarrow> setitem (h ! f) col v
                  | Inl e \<Rightarrow> setitem (h ! f) col (zeros (nrows (h ! f))))
            else h ! f) = coerced_upto parse {col} (h ! f)"
    using loop_body_table [OF assms] by blast
  show ?thesis
  proof (cases "is_numeric_dtype it")
    case True
    then have "coerced_upto parse {col} (h ! f) = h ! f" using e by simp
    then show ?thesis using g True by simp
  next
    case False
    show ?thesis
    proof (cases "to_numeric parse it")
      case (Inl err)
      then show ?thesis using g False e by simp
    next
      case (Inr v)
      then show ?thesis using g False e by simp
    qed
  qed
qed

lemma coerce_columns_closed:
  "f < length h \<Longrightarrow> set cols \<subseteq> set (columns (h ! f)) \<Longrightarrow>
     coerce_columns parse f cols h = Inr (h[f := coerced_upto parse (set cols) (h ! f)])"
proof (induction cols arbitrary: h)
  case Nil
  then show ?case by simp
next
  case (Cons col cols)
  let ?h = "h[f := coerced_upto parse {col} (h ! f)]"
  have c: "col \<in> set (columns (h ! f))" using Cons.prems by simp
  have len: "f < length ?h" using Cons.prems by simp
  have at: "?h ! f = coerced_upto parse {col} (h ! f)" using Cons.prems by simp
  have sub: "set cols \<subseteq> set (columns (?h ! f))" using Cons.prems by (simp add: at)
  have "coerce_columns parse f (col # cols) h = coerce_columns parse f cols ?h"
    using c by (rule coerce_columns_step)
  also have "\<dots> = Inr (?h[f := coerced_upto parse (set cols) (?h ! f)])"
    using len sub by (rule Cons.IH)
  also have "?h[f := coerced_upto parse (set cols) (?h ! f)] =
             h[f := coerced_upto parse (set (col # cols)) (h ! f)]"
    by (simp add: at coerced_upto_insert)
  finally show ?case .
qed

lemma coerce_columns_all:
  "f < length h \<Longrightarrow>
     coerce_columns parse f (columns (h ! f)) h = Inr (h[f := coerced parse (h ! f)])"
  by (simp add: coerce_columns_closed coerced_upto_all)

lemma prepare_without_class:
  assumes "data < length h" and "''Class'' \<notin> set (columns (h ! data))"
  shows "prepare_data_for_prediction parse h data =
           Inr (h[data := coerced parse (h ! data)] @ [fillna (coerced parse (h ! data))],
                length h, None)"
  using assms
  by (simp add: prepare_data_for_prediction_def coerce_columns_all alloc_def nth_append)

lemma getitem_present:
  assumes "col \<in> set (columns data)"
  shows "\<exists>it. getitem data col = Inr it"
  using loop_body_table [OF assms] by blast

lemma prepare_with_class:
  assumes "data < length h" and "''Class'' \<in> set (columns (h ! data))"
  shows "\<exists>labels. getitem (h ! data) ''Class'' = Inr labels \<and>
         prepare_data_for_prediction parse h data =
           Inr (h @ [coerced parse (drop_column (h ! data) ''Class''),
                     fillna (coerced parse (drop_column (h ! data) ''Class''))],
                Suc (length h), Some labels)"
proof -
  obtain labels where g: "getitem (h ! data) ''Class'' = Inr labels"
    using getitem_present [OF assms(2)] by blast
  let ?h1 = "h @ [drop_column (h ! data) ''Class'']"
  have l: "length h < length ?h1" by simp
  have at: "?h1 ! length h = drop_column (h ! data) ''Class''" by simp
  have loop: "coerce_columns parse (length h) (columns (drop_column (h ! data) ''Class'')) ?h1 =
              Inr (?h1[length h := coerced parse (drop_column (h ! data) ''Class'')])"
    using coerce_columns_all [OF l, of parse] unfolding at .
  have "prepare_data_for_prediction parse h data =
           Inr (h @ [coerced parse (drop_column (h ! data) ''Class''),
                     fillna (coerced parse (drop_column (h ! data) ''Class''))],
                Suc (length h), Some labels)"
    using assms(2) g
    by (simp add: prepare_data_for_prediction_def alloc_def loop)
  with g show ?thesis by blast
qed

lemma numeric_coerced_column [simp]: "numeric_dtype (coerced_column parse k d c)"
  by (cases c; cases d) (auto simp: zeros_def)

lemma fillna_column_numeric:
  "numeric_dtype c \<Longrightarrow> numeric_dtype (fillna_column c) \<and> no_missing (fillna_column c)"
  by (cases c) auto

lemma fillna_coerced_clean:
  assumes "(n, c) \<in> set (fillna (coerced parse data))"
  shows "numeric_dtype c \<and> no_missing c"
proof -
  from assms obtain c0 d where "c = fillna_column (coerced_column parse (nrows data) d c0)"
    by (auto simp: fillna_def coerced_def)
  then show ?thesis by (simp add: fillna_column_numeric)
qed

lemma columns_fillna [simp]: "columns (fillna data) = columns data"
  by (simp add: fillna_def columns_def case_prod_beta)

lemma columns_coerced [simp]: "columns (coerced parse data) = columns data"
  by (simp add: coerced_def columns_def case_prod_beta)

lemma columns_drop_column:
  "columns (drop_column data col) = filter (\<lambda>n. n \<noteq> col) (columns data)"
  by (induction data) (auto simp: drop_column_def columns_def)

lemma drop_column_absent:
  "col \<notin> set (columns data) \<Longrightarrow> drop_column data col = data"
  unfolding drop_column_def columns_def
  by (rule filter_True) force

lemma count_list_filter_neq:
  "n \<noteq> col \<Longrightarrow> count_list (filter (\<lambda>x. x \<noteq> col) xs) n = count_list xs n"
  by (induction xs) auto

lemma coerced_object_column:
  assumes "(n, ObjCol os) \<in> set data" and "count_list (columns data) n = 1"
  shows "(n, NumCol (map (coerce parse) os)) \<in> set (coerced parse data)"
proof -
  have "(\<lambda>(n, c). (n, coerced_column parse (nrows data)
                          (1 < count_list (columns data) n) c)) (n, ObjCol os)
        \<in> set (coerced parse data)"
    unfolding coerced_def using assms(1) by (intro imageI [of _ "set data", folded set_map])
  then show ?thesis using assms(2) by simp
qed

lemma fillna_member:
  "(n, c) \<in> set data \<Longrightarrow> (n, fillna_column c) \<in> set (fillna data)"
  unfolding fillna_def by (force simp: image_iff)

lemma getitem_absent:
  "col \<notin> set (columns data) \<Longrightarrow> getitem data col = Inl KeyError"
proof -
  assume "col \<notin> set (columns data)"
  then have "filter (\<lambda>(n, c). n = col) data = []"
    by (force simp: filter_empty_conv columns_def)
  then show ?thesis by (simp add: getitem_def)
qed

lemma getitem_one:
  assumes "count_list (columns data) col = 1" and "(col, c) \<in> set data"
  shows "getitem data col = Inr (Series c)"
  using getitem_unique [OF assms(1)] assms(2) by auto

text \<open>
  C3. For every table in the store, prepare_data_for_prediction returns, without raising, a
  new features table in which every column has a numeric dtype and no value is missing.
  It is the table without its \<open>Class\<close> columns, coerced and then filled: a cell of an
  object column that does not parse becomes nan and then 0. The labels are the \<open>Class\<close>
  column when the table has one, and None otherwise.
\<close>

theorem prepare_features_numeric:
  assumes "data < length h"
  shows "\<exists>h' features labels.
           prepare_data_for_prediction parse h data = Inr (h', features, labels) \<and>
           features < length h' \<and>
           (\<forall>(n, c) \<in> set (h' ! features). numeric_dtype c \<and> no_missing c) \<and>
           h' ! features = fillna (coerced parse (drop_column (h ! data) ''Class'')) \<and>
           columns (h' ! features) = filter (\<lambda>n. n \<noteq> ''Class'') (columns (h ! data)) \<and>
           (\<forall>n os. (n, ObjCol os) \<in> set (h ! data) \<and> n \<noteq> ''Class'' \<and>
                   count_list (columns (h ! data)) n = 1 \<longrightarrow>
                (n, NumCol (map (\<lambda>x. if coerce parse x = NaN then Fin 0 else coerce parse x) os))
                  \<in> set (h' ! features)) \<and>
           labels = (case getitem (h ! data) ''Class'' of Inr l \<Rightarrow> Some l | Inl e \<Rightarrow> None) \<and>
           (''Class'' \<notin> set (columns (h ! data)) \<longrightarrow> labels = None) \<and>
           (\<forall>c. (''Class'', c) \<in> set (h ! data) \<and>
                count_list (columns (h ! data)) ''Class'' = 1 \<longrightarrow> labels = Some (Series c))"
proof -
  let ?t = "drop_column (h ! data) ''Class''"
  let ?r = "fillna (coerced parse ?t)"
  have clean: "\<forall>(n, c) \<in> set ?r. numeric_dtype c \<and> no_missing c"
    using fillna_coerced_clean by blast
  have cols: "columns ?r = filter (\<lambda>n. n \<noteq> ''Class'') (columns (h ! data))"
    by (simp add: columns_drop_column)
  have cells: "\<forall>n os. (n, ObjCol os) \<in> set (h ! data) \<and> n \<noteq> ''Class'' \<and>
                   count_list (columns (h ! data)) n = 1 \<longrightarrow>
                (n, NumCol (map (\<lambda>x. if coerce parse x = NaN then Fin 0 else coerce parse x) os))
                  \<in> set ?r"
  proof (intro allI impI)
    fix n os
    assume a: "(n, ObjCol os) \<in> set (h ! data) \<and> n \<noteq> ''Class'' \<and>
                   count_list (columns (h ! data)) n = 1"
    then have m: "(n, ObjCol os) \<in> set ?t" by (simp add: drop_column_def)
    have c: "count_list (columns ?t) n = 1"
      using a by (simp add: columns_drop_column count_list_filter_neq)
    have "(n, fillna_column (NumCol (map (coerce parse) os))) \<in> set ?r"
      using coerced_object_column [OF m c] by (rule fillna_member)
    then show "(n, NumCol (map (\<lambda>x. if coerce parse x = NaN then Fin 0 else coerce parse x) os))
                  \<in> set ?r"
      by (simp add: comp_def)
  qed
  show ?thesis
  proof (cases "''Class'' \<in> set (columns (h ! data))")
    case False
    have p: "prepare_data_for_prediction parse h data =
           Inr (h[data := coerced parse (h ! data)] @ [fillna (coerced parse (h ! data))],
                length h, None)"
      using assms False by (rule prepare_without_class)
    have d: "?t = h ! data" using False by (rule drop_column_absent)
    have no: "\<forall>c. (''Class'', c) \<notin> set (h ! data)"
      using False by (force simp: columns_def)
    show ?thesis
      using p clean cols cells no False
      by (simp add: d getitem_absent nth_append)
  next
    case True
    then obtain labels where g: "getitem (h ! data) ''Class'' = Inr labels"
      and p: "prepare_data_for_prediction parse h data =
           Inr (h @ [coerced parse ?t, ?r], Suc (length h), Some labels)"
      using prepare_with_class [OF assms True] by blast
    have one: "\<forall>c. (''Class'', c) \<in> set (h ! data) \<and>
                count_list (columns (h ! data)) ''Class'' = 1 \<longrightarrow> labels = Series c"
      using g getitem_one by fastforce
    show ?thesis
      using p clean cols cells True one
      by (simp add: g nth_append)
  qed
qed

theorem prepare_features_numeric_witness:
  "(0::nat) < length [[(''Amount'', ObjCol [PyStr ''12'', PyStr ''abc'']),
                       (''Class'', NumCol [Fin 1, Fin 0]),
                       (''V1'', NumCol [Fin 1, NaN])]]
   \<and> (\<exists>h' features labels.
        prepare_data_for_prediction parse_digits
          [[(''Amount'', ObjCol [PyStr ''12'', PyStr ''abc'']),
            (''Class'', NumCol [Fin 1, Fin 0]),
            (''V1'', NumCol [Fin 1, NaN])]] 0 = Inr (h', features, labels) \<and>
        (\<forall>(n, c) \<in> set (h' ! features). numeric_dtype c \<and> no_missing c))
   \<and> prepare_data_for_prediction parse_digits
          [[(''Amount'', ObjCol [PyStr ''12'', PyStr ''abc'']),
            (''Class'', NumCol [Fin 1, Fin 0]),
            (''V1'', NumCol [Fin 1, NaN])]] 0 =
       Inr ([[(''Amount'', ObjCol [PyStr ''12'', PyStr ''abc'']),
              (''Class'', NumCol [Fin 1, Fin 0]),
              (''V1'', NumCol [Fin 1, NaN])],
             [(''Amount'', NumCol [Fin 12, NaN]), (''V1'', NumCol [Fin 1, NaN])],
             [(''Amount'', NumCol [Fin 12, Fin 0]), (''V1'', NumCol [Fin 1, Fin 0])]],
            2, Some (Series (NumCol [Fin 1, Fin 0])))"
proof -
  let ?h = "[[(''Amount'', ObjCol [PyStr ''12'', PyStr ''abc'']),
              (''Class'', NumCol [Fin 1, Fin 0]),
              (''V1'', NumCol [Fin 1, NaN])]]"
  have len: "(0::nat) < length ?h" by simp
  have gen: "\<exists>h' features labels.
        prepare_data_for_prediction parse_digits ?h 0 = Inr (h', features, labels) \<and>
        (\<forall>(n, c) \<in> set (h' ! features). numeric_dtype c \<and> no_missing c)"
    using prepare_features_numeric [OF len, of parse_digits] by blast
  have run: "prepare_data_for_prediction parse_digits ?h 0 =
       Inr ([[(''Amount'', ObjCol [PyStr ''12'', PyStr ''abc'']),
              (''Class'', NumCol [Fin 1, Fin 0]),
              (''V1'', NumCol [Fin 1, NaN])],
             [(''Amount'', NumCol [Fin 12, NaN]), (''V1'', NumCol [Fin 1, NaN])],
             [(''Amount'', NumCol [Fin 12, Fin 0]), (''V1'', NumCol [Fin 1, Fin 0])]],
            2, Some (Series (NumCol [Fin 1, Fin 0])))"
    by code_simp
  from len gen run show ?thesis by (intro conjI)
qed

text \<open>
  C9. Without a \<open>Class\<close> column the loop assigns into the caller's own table:
  after the call that table holds the coerced columns, every object column replaced by its
  numbers, with nan where a cell did not parse. The features table returned is not that
  object: \<open>fillna\<close> makes a new table, allocated at a fresh reference, and only the new table
  has its missing values filled. No other table changes. With a \<open>Class\<close> column every table
  the caller holds is left as it was and the result is again a fresh table.
\<close>

theorem prepare_mutates_argument:
  assumes "data < length h"
  shows "(''Class'' \<notin> set (columns (h ! data)) \<longrightarrow>
           (\<exists>h'. prepare_data_for_prediction parse h data = Inr (h', length h, None) \<and>
                 length h' = Suc (length h) \<and>
                 h' ! data = coerced parse (h ! data) \<and>
                 (\<forall>n os. (n, ObjCol os) \<in> set (h ! data) \<and>
                         count_list (columns (h ! data)) n = 1 \<longrightarrow>
                      (n, NumCol (map (coerce parse) os)) \<in> set (h' ! data)) \<and>
                 h' ! length h = fillna (coerced parse (h ! data)) \<and>
                 (\<forall>r < length h. r \<noteq> data \<longrightarrow> h' ! r = h ! r)))
       \<and> (''Class'' \<in> set (columns (h ! data)) \<longrightarrow>
           (\<exists>h' features labels.
                 prepare_data_for_prediction parse h data = Inr (h', features, labels) \<and>
                 length h \<le> features \<and>
                 (\<forall>r < length h. h' ! r = h ! r)))"
proof (intro conjI impI)
  assume no: "''Class'' \<notin> set (columns (h ! data))"
  let ?h' = "h[data := coerced parse (h ! data)] @ [fillna (coerced parse (h ! data))]"
  have p: "prepare_data_for_prediction parse h data = Inr (?h', length h, None)"
    using assms no by (rule prepare_without_class)
  have a: "length ?h' = Suc (length h)" by simp
  have b: "?h' ! data = coerced parse (h ! data)"
    using assms by (simp add: nth_append)
  have c: "\<forall>n os. (n, ObjCol os) \<in> set (h ! data) \<and>
                         count_list (columns (h ! data)) n = 1 \<longrightarrow>
                      (n, NumCol (map (coerce parse) os)) \<in> set (?h' ! data)"
    unfolding b using coerced_object_column by blast
  have d: "?h' ! length h = fillna (coerced parse (h ! data))"
    by (simp add: nth_append)
  have e: "\<forall>r < length h. r \<noteq> data \<longrightarrow> ?h' ! r = h ! r"
    by (simp add: nth_append)
  show "\<exists>h'. prepare_data_for_prediction parse h data = Inr (h', length h, None) \<and>
                 length h' = Suc (length h) \<and>
                 h' ! data = coerced parse (h ! data) \<and>
                 (\<forall>n os. (n, ObjCol os) \<in> set (h ! data) \<and>
                         count_list (columns (h ! data)) n = 1 \<longrightarrow>
                      (n, NumCol (map (coerce parse) os)) \<in> set (h' ! data)) \<and>
                 h' ! length h = fillna (coerced parse (h ! data)) \<and>
                 (\<forall>r < length h. r \<noteq> data \<longrightarrow> h' ! r = h ! r)"
    using p a b c d e by blast
next
  assume yes: "''Class'' \<in> set (columns (h ! data))"
  let ?t = "drop_column (h ! data) ''Class''"
  obtain labels where
    p: "prepare_data_for_prediction parse h data =
           Inr (h @ [coerced parse ?t, fillna (coerced parse ?t)], Suc (length h), Some labels)"
    using prepare_with_class [OF assms yes] by blast
  have e: "\<forall>r < length h. (h @ [coerced parse ?t, fillna (coerced parse ?t)]) ! r = h ! r"
    by (simp add: nth_append)
  show "\<exists>h' features labels.
                 prepare_data_for_prediction parse h data = Inr (h', features, labels) \<and>
                 length h \<le> features \<and>
                 (\<forall>r < length h. h' ! r = h ! r)"
    using p e by (intro exI [of _ "h @ [coerced parse ?t, fillna (coerced parse ?t)]"]
        exI [of _ "Suc (length h)"] exI [of _ "Some labels"]) simp
qed

theorem prepare_mutates_argument_witness:
  "(0::nat) < length [[(''Amount'', ObjCol [PyStr ''12'', PyStr ''abc'']),
                       (''V1'', NumCol [Fin 1, NaN])]]
   \<and> ''Class'' \<notin> set (columns ([[(''Amount'', ObjCol [PyStr ''12'', PyStr ''abc'']),
                                   (''V1'', NumCol [Fin 1, NaN])]] ! 0))
   \<and> (\<exists>h'. prepare_data_for_prediction parse_digits
               [[(''Amount'', ObjCol [PyStr ''12'', PyStr ''abc'']),
                 (''V1'', NumCol [Fin 1, NaN])]] 0 = Inr (h', 1, None) \<and>
            h' ! 0 = coerced parse_digits [(''Amount'', ObjCol [PyStr ''12'', PyStr ''abc'']),
                                          (''V1'', NumCol [Fin 1, NaN])])
   \<and> coerced parse_digits [(''Amount'', ObjCol [PyStr ''12'', PyStr ''abc'']),
                           (''V1'', NumCol [Fin 1, NaN])] =
       [(''Amount'', NumCol [Fin 12, NaN]), (''V1'', NumCol [Fin 1, NaN])]"
proof -
  let ?t = "[(''Amount'', ObjCol [PyStr ''12'', PyStr ''abc'']), (''V1'', NumCol [Fin 1, NaN])]"
  have len: "(0::nat) < length [?t]" by simp
  have no: "''Class'' \<notin> set (columns ([?t] ! 0))" by (simp add: columns_def)
  have gen: "\<exists>h'. prepare_data_for_prediction parse_digits [?t] 0 = Inr (h', 1, None) \<and>
            h' ! 0 = coerced parse_digits ?t"
    using prepare_mutates_argument [OF len, of parse_digits] no by auto
  have run: "coerced parse_digits ?t =
       [(''Amount'', NumCol [Fin 12, NaN]), (''V1'', NumCol [Fin 1, NaN])]"
    by code_simp
  from len no gen run show ?thesis by (intro conjI)
qed

text \<open>
  C9 as stated says that the features table returned is the input object itself. Here the
  argument is reference 0 and the result is reference 1; the caller's table keeps a nan
  where the returned one holds 0.
\<close>

theorem prepare_returns_new_table:
  "prepare_data_for_prediction parse_digits
     [[(''Amount'', ObjCol [PyStr ''12'', PyStr ''abc''])]] 0 =
   Inr ([[(''Amount'', NumCol [Fin 12, NaN])], [(''Amount'', NumCol [Fin 12, Fin 0])]],
        1, None)"
  by code_simp

section \<open>Properties of the request handlers\<close>

lemma write_row_nonempty: "write_row quotes_cr flds \<noteq> []"
  by (simp add: write_row_def)

lemma to_csv_nonempty: "to_csv quotes_cr render data \<noteq> []"
  by (simp add: to_csv_def csv_rows_def write_row_nonempty)

lemma predict_cases:
  assumes "predict e request s = (resp, s')"
  shows "(\<exists>r results_df. resp = ResultsPage r \<and> download_token r = token_urlsafe e \<and>
            s' = s(token_urlsafe e \<mapsto> to_csv (csv_quotes_cr e) (number_renderer e) results_df))
         \<or> ((\<forall>r. resp \<noteq> ResultsPage r) \<and> s' = s)"
  using assms unfolding predict_def Let_def alloc_def
  by (auto split: option.splits sum.splits prod.splits if_splits)

lemma predict_keeps_nonempty:
  assumes "predict e request s = (resp, s')" and "nonempty_artifacts s"
  shows "nonempty_artifacts s'"
proof -
  have "s' = s \<or> (\<exists>results_df. s' = s(token_urlsafe e \<mapsto> to_csv (csv_quotes_cr e) (number_renderer e) results_df))"
    using predict_cases [OF assms(1)] by blast
  then show ?thesis
  proof
    assume "s' = s"
    then show ?thesis using assms(2) by simp
  next
    assume "\<exists>results_df. s' = s(token_urlsafe e \<mapsto> to_csv (csv_quotes_cr e) (number_renderer e) results_df)"
    then obtain results_df
      where s': "s' = s(token_urlsafe e \<mapsto> to_csv (csv_quotes_cr e) (number_renderer e) results_df)"
      by blast
    show ?thesis
      unfolding nonempty_artifacts_def
    proof (intro allI impI)
      fix t d assume d: "s' t = Some d"
      show "d \<noteq> []"
      proof (cases "t = token_urlsafe e")
        case True
        then have "d = to_csv (csv_quotes_cr e) (number_renderer e) results_df" using d s' by simp
        then show ?thesis by (simp add: to_csv_nonempty)
      next
        case False
        then have "s t = Some d" using d s' by simp
        then show ?thesis using assms(2) by (simp add: nonempty_artifacts_def)
      qed
    qed
  qed
qed

lemma download_keeps_nonempty:
  assumes "download token s = (resp, s')" and "nonempty_artifacts s"
  shows "nonempty_artifacts s'"
proof -
  have "s' = s \<or> s' = s(token := None)"
    using assms(1) by (auto simp: download_def split: option.splits if_splits)
  then show ?thesis
  proof
    assume "s' = s"
    then show ?thesis using assms(2) by simp
  next
    assume s': "s' = s(token := None)"
    show ?thesis
      unfolding nonempty_artifacts_def
    proof (intro allI impI)
      fix t d assume d: "s' t = Some d"
      then have "s t = Some d" using s' by (cases "t = token") simp_all
      then show "d \<noteq> []" using assms(2) by (simp add: nonempty_artifacts_def)
    qed
  qed
qed

lemma nonempty_artifacts_empty: "nonempty_artifacts Map.empty"
  by (simp add: nonempty_artifacts_def)


text \<open>
  C6. Every artifact is retrievable exactly once per token. In a store whose artifacts are
  not empty, the first download of a stored token sends its bytes and deletes the entry,
  and a second download of the same token gets the expired-link outcome; so does a token
  the store does not hold. The token that \<open>predict\<close> issues with its results page is stored
  with non-empty bytes, so it is served once and then expired. The store starts empty, and
  both handlers keep every artifact non-empty.
\<close>

theorem download_once:
  "(nonempty_artifacts s \<and> s token = Some d \<longrightarrow>
      download token s = (SendFile d, s(token := None)) \<and>
      download token (s(token := None)) = (expired_token, s(token := None)))
   \<and> (s token = None \<longrightarrow> download token s = (expired_token, s))
   \<and> (predict e request s = (ResultsPage r, s') \<longrightarrow>
        (\<exists>csv_bytes. csv_bytes \<noteq> [] \<and> s' (download_token r) = Some csv_bytes \<and>
           download (download_token r) s' = (SendFile csv_bytes, s'(download_token r := None)) \<and>
           download (download_token r) (s'(download_token r := None)) =
             (expired_token, s'(download_token r := None))))
   \<and> nonempty_artifacts Map.empty
   \<and> (nonempty_artifacts s \<and> predict e request s = (resp, s') \<longrightarrow> nonempty_artifacts s')
   \<and> (nonempty_artifacts s \<and> download token s = (resp, s') \<longrightarrow> nonempty_artifacts s')"
proof (intro conjI impI)
  assume a: "nonempty_artifacts s \<and> s token = Some d"
  then have "d \<noteq> []" by (auto simp: nonempty_artifacts_def)
  then show "download token s = (SendFile d, s(token := None))"
    using a by (simp add: download_def)
next
  show "download token (s(token := None)) = (expired_token, s(token := None))"
    by (simp add: download_def)
next
  assume "s token = None"
  then show "download token s = (expired_token, s)"
    by (simp add: download_def)
next
  assume p: "predict e request s = (ResultsPage r, s')"
  from predict_cases [OF p] obtain results_df
    where t: "download_token r = token_urlsafe e"
      and s': "s' = s(token_urlsafe e \<mapsto> to_csv (csv_quotes_cr e) (number_renderer e) results_df)"
    by auto
  let ?b = "to_csv (csv_quotes_cr e) (number_renderer e) results_df"
  have ne: "?b \<noteq> []" by (rule to_csv_nonempty)
  have at: "s' (download_token r) = Some ?b" using t s' by simp
  have d1: "download (download_token r) s' = (SendFile ?b, s'(download_token r := None))"
    using at ne by (simp add: download_def)
  have d2: "download (download_token r) (s'(download_token r := None)) =
             (expired_token, s'(download_token r := None))"
    by (simp add: download_def)
  show "\<exists>csv_bytes. csv_bytes \<noteq> [] \<and> s' (download_token r) = Some csv_bytes \<and>
           download (download_token r) s' = (SendFile csv_bytes, s'(download_token r := None)) \<and>
           download (download_token r) (s'(download_token r := None)) =
             (expired_token, s'(download_token r := None))"
    using ne at d1 d2 by blast
next
  show "nonempty_artifacts Map.empty" by (rule nonempty_artifacts_empty)
next
  assume "nonempty_artifacts s \<and> predict e request s = (resp, s')"
  then show "nonempty_artifacts s'" using predict_keeps_nonempty by blast
next
  assume "nonempty_artifacts s \<and> download token s = (resp, s')"
  then show "nonempty_artifacts s'" using download_keeps_nonempty by blast
qed

text \<open>
  C10. Whatever \<open>predict\<close> answers, either it is the results page, carrying the token, and
  the store differs from the one before by exactly that token, bound to the CSV bytes of the
  results table; or it is not the results page and the store is unchanged. In particular a
  CSV that fails to parse, a table that fails validation, and a model whose \<open>predict\<close>
  raises each end in the flashed error with the store as it was.
\<close>

theorem predict_store_atomic:
  "(predict e request s = (resp, s') \<longrightarrow>
      (\<exists>r results_df. resp = ResultsPage r \<and> download_token r = token_urlsafe e \<and>
            s' = s(token_urlsafe e \<mapsto> to_csv (csv_quotes_cr e) (number_renderer e) results_df))
      \<or> ((\<forall>r. resp \<noteq> ResultsPage r) \<and> s' = s))
   \<and> (request = Some file \<and> filename file \<noteq> [] \<and> MODEL e = Some m \<and>
      read_csv e (content file) = Inl err \<longrightarrow>
        predict e request s = (Redirect ''danger'' (''Failed to read CSV: '' @ err), s))
   \<and> (request = Some file \<and> filename file \<noteq> [] \<and> MODEL e = Some m \<and>
      read_csv e (content file) = Inr df \<and> validate_csv_data df = (False, msg) \<longrightarrow>
        predict e request s = (Redirect ''danger'' (''Data validation failed: '' @ msg), s))
   \<and> (request = Some file \<and> filename file \<noteq> [] \<and> MODEL e = Some m \<and>
      read_csv e (content file) = Inr df \<and> fst (validate_csv_data df) \<and>
      prepare_data_for_prediction (number_parser e) [df] 0 = Inr (h, features_df, labels) \<and>
      predict_method m (h ! features_df) = Inl err \<longrightarrow>
        predict e request s = (Redirect ''danger'' (''Model prediction failed: '' @ err), s))"
proof (intro conjI impI)
  assume "predict e request s = (resp, s')"
  then show "(\<exists>r results_df. resp = ResultsPage r \<and> download_token r = token_urlsafe e \<and>
            s' = s(token_urlsafe e \<mapsto> to_csv (csv_quotes_cr e) (number_renderer e) results_df))
      \<or> ((\<forall>r. resp \<noteq> ResultsPage r) \<and> s' = s)"
    by (rule predict_cases)
next
  assume "request = Some file \<and> filename file \<noteq> [] \<and> MODEL e = Some m \<and>
      read_csv e (content file) = Inl err"
  then show "predict e request s = (Redirect ''danger'' (''Failed to read CSV: '' @ err), s)"
    by (simp add: predict_def)
next
  assume "request = Some file \<and> filename file \<noteq> [] \<and> MODEL e = Some m \<and>
      read_csv e (content file) = Inr df \<and> validate_csv_data df = (False, msg)"
  then show "predict e request s = (Redirect ''danger'' (''Data validation failed: '' @ msg), s)"
    by (simp add: predict_def alloc_def)
next
  assume "request = Some file \<and> filename file \<noteq> [] \<and> MODEL e = Some m \<and>
      read_csv e (content file) = Inr df \<and> fst (validate_csv_data df) \<and>
      prepare_data_for_prediction (number_parser e) [df] 0 = Inr (h, features_df, labels) \<and>
      predict_method m (h ! features_df) = Inl err"
  then show "predict e request s = (Redirect ''danger'' (''Model prediction failed: '' @ err), s)"
    by (cases "validate_csv_data df") (simp add: predict_def alloc_def)
qed

lemma example_run:
  "(case fst (predict example_env (Some example_upload) Map.empty) of
      ResultsPage r \<Rightarrow> download_token r = ''q3Zk0vX8Jm1sT5yRb2NwAg'' \<and> row_count r = 2
    | _ \<Rightarrow> False)"
  by code_simp

lemma example_bytes:
  "snd (predict example_env (Some example_upload) Map.empty) ''q3Zk0vX8Jm1sT5yRb2NwAg'' =
     Some ''V1,V2,V3,V4,V5,V6,V7,V8,Amount,Fraud Prediction\<newline>1,1,1,1,1,1,1,1,12,Legitimate\<newline>2,2,2,2,2,2,2,,,Fraudulent\<newline>''"
  by code_simp

theorem download_once_witness:
  "nonempty_artifacts Map.empty
   \<and> nonempty_artifacts [''k7'' \<mapsto> ''a,b'']
   \<and> download ''k7'' [''k7'' \<mapsto> ''a,b''] = (SendFile ''a,b'', [''k7'' \<mapsto> ''a,b''](''k7'' := None))
   \<and> download ''k7'' ([''k7'' \<mapsto> ''a,b''](''k7'' := None)) =
        (expired_token, [''k7'' \<mapsto> ''a,b''](''k7'' := None))
   \<and> (\<exists>r s'. predict example_env (Some example_upload) Map.empty = (ResultsPage r, s') \<and>
        s' (download_token r) =
          Some ''V1,V2,V3,V4,V5,V6,V7,V8,Amount,Fraud Prediction\<newline>1,1,1,1,1,1,1,1,12,Legitimate\<newline>2,2,2,2,2,2,2,,,Fraudulent\<newline>'' \<and>
        (\<exists>csv_bytes.
           download (download_token r) s' = (SendFile csv_bytes, s'(download_token r := None)) \<and>
           download (download_token r) (s'(download_token r := None)) =
             (expired_token, s'(download_token r := None))))"
proof -
  let ?p = "predict example_env (Some example_upload) Map.empty"
  obtain r where r: "fst ?p = ResultsPage r"
    and t: "download_token r = ''q3Zk0vX8Jm1sT5yRb2NwAg''"
    using example_run by (cases "fst ?p") auto
  have p: "?p = (ResultsPage r, snd ?p)"
    using r by (simp add: prod_eq_iff)
  note d = download_once [of Map.empty "''x''" "''y''" example_env "Some example_upload" r
      "snd ?p" "fst ?p"]
  have b: "snd ?p (download_token r) =
          Some ''V1,V2,V3,V4,V5,V6,V7,V8,Amount,Fraud Prediction\<newline>1,1,1,1,1,1,1,1,12,Legitimate\<newline>2,2,2,2,2,2,2,,,Fraudulent\<newline>''"
    unfolding t by (rule example_bytes)
  have e: "nonempty_artifacts Map.empty" using d by blast
  have "\<exists>csv_bytes.
           download (download_token r) (snd ?p) =
             (SendFile csv_bytes, (snd ?p)(download_token r := None)) \<and>
           download (download_token r) ((snd ?p)(download_token r := None)) =
             (expired_token, (snd ?p)(download_token r := None))"
    using d p by blast
  then have run: "\<exists>r s'. predict example_env (Some example_upload) Map.empty = (ResultsPage r, s') \<and>
        s' (download_token r) =
          Some ''V1,V2,V3,V4,V5,V6,V7,V8,Amount,Fraud Prediction\<newline>1,1,1,1,1,1,1,1,12,Legitimate\<newline>2,2,2,2,2,2,2,,,Fraudulent\<newline>'' \<and>
        (\<exists>csv_bytes.
           download (download_token r) s' = (SendFile csv_bytes, s'(download_token r := None)) \<and>
           download (download_token r) (s'(download_token r := None)) =
             (expired_token, s'(download_token r := None)))"
    using p b by blast
  have ne: "nonempty_artifacts [''k7'' \<mapsto> ''a,b'']"
    by (simp add: nonempty_artifacts_def)
  have at: "[''k7'' \<mapsto> ''a,b''] ''k7'' = Some ''a,b''" by simp
  note d' = download_once [of "[''k7'' \<mapsto> ''a,b'']" "''k7''" "''a,b''" example_env None r
      "snd ?p" "fst ?p"]
  have one: "download ''k7'' [''k7'' \<mapsto> ''a,b''] =
               (SendFile ''a,b'', [''k7'' \<mapsto> ''a,b''](''k7'' := None))"
    and two: "download ''k7'' ([''k7'' \<mapsto> ''a,b''](''k7'' := None)) =
        (expired_token, [''k7'' \<mapsto> ''a,b''](''k7'' := None))"
    using d' ne at by blast+
  from e ne one two run show ?thesis by (intro conjI)
qed


lemma example_prepare:
  "prepare_data_for_prediction parse_digits [example_table] 0 =
     Inr ([[(''V1'', NumCol [Fin 1, Fin 2]), (''V2'', NumCol [Fin 1, Fin 2]),
            (''V3'', NumCol [Fin 1, Fin 2]), (''V4'', NumCol [Fin 1, Fin 2]),
            (''V5'', NumCol [Fin 1, Fin 2]), (''V6'', NumCol [Fin 1, Fin 2]),
            (''V7'', NumCol [Fin 1, Fin 2]), (''V8'', NumCol [Fin 1, NaN]),
            (''Amount'', NumCol [Fin 12, NaN])],
           [(''V1'', NumCol [Fin 1, Fin 2]), (''V2'', NumCol [Fin 1, Fin 2]),
            (''V3'', NumCol [Fin 1, Fin 2]), (''V4'', NumCol [Fin 1, Fin 2]),
            (''V5'', NumCol [Fin 1, Fin 2]), (''V6'', NumCol [Fin 1, Fin 2]),
            (''V7'', NumCol [Fin 1, Fin 2]), (''V8'', NumCol [Fin 1, Fin 0]),
            (''Amount'', NumCol [Fin 12, Fin 0])]],
          1, None)"
  by code_simp

lemma example_valid: "validate_csv_data example_table = (True, ''Data validation passed'')"
  by code_simp

theorem predict_store_atomic_witness:
  "predict example_env (Some empty_upload) Map.empty =
     (Redirect ''danger'' ''Failed to read CSV: No columns to parse from file'', Map.empty)
   \<and> predict (example_env\<lparr>MODEL := Some failing_model\<rparr>) (Some example_upload) Map.empty =
     (Redirect ''danger''
        ''Model prediction failed: X has 9 features, but the model is expecting 30 features'',
      Map.empty)"
proof -
  let ?h = "[[(''V1'', NumCol [Fin 1, Fin 2]), (''V2'', NumCol [Fin 1, Fin 2]),
            (''V3'', NumCol [Fin 1, Fin 2]), (''V4'', NumCol [Fin 1, Fin 2]),
            (''V5'', NumCol [Fin 1, Fin 2]), (''V6'', NumCol [Fin 1, Fin 2]),
            (''V7'', NumCol [Fin 1, Fin 2]), (''V8'', NumCol [Fin 1, NaN]),
            (''Amount'', NumCol [Fin 12, NaN])],
           [(''V1'', NumCol [Fin 1, Fin 2]), (''V2'', NumCol [Fin 1, Fin 2]),
            (''V3'', NumCol [Fin 1, Fin 2]), (''V4'', NumCol [Fin 1, Fin 2]),
            (''V5'', NumCol [Fin 1, Fin 2]), (''V6'', NumCol [Fin 1, Fin 2]),
            (''V7'', NumCol [Fin 1, Fin 2]), (''V8'', NumCol [Fin 1, Fin 0]),
            (''Amount'', NumCol [Fin 12, Fin 0])]]"
  let ?e = "example_env\<lparr>MODEL := Some failing_model\<rparr>"
  have a: "Some empty_upload = Some empty_upload \<and> filename empty_upload \<noteq> [] \<and>
      MODEL example_env = Some example_model \<and>
      read_csv example_env (content empty_upload) = Inl ''No columns to parse from file''"
    by (simp add: empty_upload_def example_env_def)
  have one: "predict example_env (Some empty_upload) Map.empty =
     (Redirect ''danger'' (''Failed to read CSV: '' @ ''No columns to parse from file''), Map.empty)"
    using predict_store_atomic [of example_env "Some empty_upload" Map.empty
        "fst (predict example_env (Some empty_upload) Map.empty)"
        "snd (predict example_env (Some empty_upload) Map.empty)"
        empty_upload example_model "''No columns to parse from file''"
        example_table "[]" ?h 1 None] a
    by blast
  have b: "Some example_upload = Some example_upload \<and> filename example_upload \<noteq> [] \<and>
      MODEL ?e = Some failing_model \<and>
      read_csv ?e (content example_upload) = Inr example_table \<and>
      fst (validate_csv_data example_table) \<and>
      prepare_data_for_prediction (number_parser ?e) [example_table] 0 = Inr (?h, 1, None) \<and>
      predict_method failing_model (?h ! 1) =
        Inl ''X has 9 features, but the model is expecting 30 features''"
    using example_prepare example_valid
    by (simp add: example_upload_def example_env_def failing_model_def)
  have two: "predict ?e (Some example_upload) Map.empty =
     (Redirect ''danger''
        (''Model prediction failed: '' @ ''X has 9 features, but the model is expecting 30 features''),
      Map.empty)"
    using predict_store_atomic [of ?e "Some example_upload" Map.empty
        "fst (predict ?e (Some example_upload) Map.empty)"
        "snd (predict ?e (Some example_upload) Map.empty)"
        example_upload failing_model
        "''X has 9 features, but the model is expecting 30 features''"
        example_table "[]" ?h 1 None] b
    by blast
  from one two show ?thesis by simp
qed

section \<open>Properties of the CSV output\<close>

lemma parse_quoted:
  "parse_from InQuotes fld row (escape_quotes s @ CHR 0x22 # rest) =
     parse_from QuoteSeen (fld @ s) row rest"
  by (induction s arbitrary: fld) simp_all

lemma parse_unquoted:
  "\<forall>c \<in> set s. c \<noteq> CHR '','' \<and> c \<noteq> CHR 0x0A \<and> c \<noteq> CHR 0x0D \<Longrightarrow>
     parse_from InField fld row (s @ rest) = parse_from InField (fld @ s) row rest"
  by (induction s arbitrary: fld) simp_all

lemma plain_field:
  assumes "\<not> needs_quoting quotes_cr s"
    and "CHR 0x0D \<in> set s \<longrightarrow> needs_quoting quotes_cr s"
  shows "\<forall>x \<in> set s. x \<noteq> CHR '','' \<and> x \<noteq> CHR 0x22 \<and> x \<noteq> CHR 0x0A \<and> x \<noteq> CHR 0x0D"
  using assms by (auto simp: needs_quoting_def)

lemma parse_field_comma:
  assumes "CHR 0x0D \<in> set s \<longrightarrow> needs_quoting quotes_cr s"
  shows "parse_from FieldStart f0 row (quote_field quotes_cr s @ CHR '','' # rest) =
           parse_from FieldStart [] (row @ [s]) rest"
proof (cases "needs_quoting quotes_cr s")
  case True
  then show ?thesis by (simp add: quote_field_def parse_quoted)
next
  case False
  show ?thesis
  proof (cases s)
    case Nil
    then show ?thesis using False by (simp add: quote_field_def)
  next
    case (Cons c cs)
    have plain: "\<forall>x \<in> set (c # cs).
        x \<noteq> CHR '','' \<and> x \<noteq> CHR 0x22 \<and> x \<noteq> CHR 0x0A \<and> x \<noteq> CHR 0x0D"
      using plain_field [OF False assms] Cons by simp
    then have tail: "\<forall>x \<in> set cs. x \<noteq> CHR '','' \<and> x \<noteq> CHR 0x0A \<and> x \<noteq> CHR 0x0D"
      by simp
    have "parse_from FieldStart f0 row ((c # cs) @ CHR '','' # rest) =
          parse_from InField [c] row (cs @ CHR '','' # rest)"
      using plain by simp
    also have "\<dots> = parse_from InField ([c] @ cs) row (CHR '','' # rest)"
      using tail by (rule parse_unquoted)
    also have "\<dots> = parse_from FieldStart [] (row @ [c # cs]) rest" by simp
    finally show ?thesis using False Cons by (simp add: quote_field_def)
  qed
qed

lemma parse_field_newline:
  assumes "CHR 0x0D \<in> set s \<longrightarrow> needs_quoting quotes_cr s"
    and "s = [] \<longrightarrow> row \<noteq> []"
  shows "parse_from FieldStart f0 row (quote_field quotes_cr s @ CHR 0x0A # rest) =
           (row @ [s]) # parse_from FieldStart [] [] rest"
proof (cases "needs_quoting quotes_cr s")
  case True
  then show ?thesis by (simp add: quote_field_def parse_quoted)
next
  case False
  show ?thesis
  proof (cases s)
    case Nil
    then show ?thesis using False assms(2) by (simp add: quote_field_def)
  next
    case (Cons c cs)
    have plain: "\<forall>x \<in> set (c # cs).
        x \<noteq> CHR '','' \<and> x \<noteq> CHR 0x22 \<and> x \<noteq> CHR 0x0A \<and> x \<noteq> CHR 0x0D"
      using plain_field [OF False assms(1)] Cons by simp
    then have tail: "\<forall>x \<in> set cs. x \<noteq> CHR '','' \<and> x \<noteq> CHR 0x0A \<and> x \<noteq> CHR 0x0D"
      by simp
    have "parse_from FieldStart f0 row ((c # cs) @ CHR 0x0A # rest) =
          parse_from InField [c] row (cs @ CHR 0x0A # rest)"
      using plain by simp
    also have "\<dots> = parse_from InField ([c] @ cs) row (CHR 0x0A # rest)"
      using tail by (rule parse_unquoted)
    also have "\<dots> = (row @ [c # cs]) # parse_from FieldStart [] [] rest" by simp
    finally show ?thesis using False Cons by (simp add: quote_field_def)
  qed
qed

lemma parse_joined_row:
  "flds \<noteq> [] \<Longrightarrow> row @ flds \<noteq> [[]] \<Longrightarrow>
   \<forall>f \<in> set flds. CHR 0x0D \<in> set f \<longrightarrow> needs_quoting quotes_cr f \<Longrightarrow>
     parse_from FieldStart f0 row
       (join '','' (map (quote_field quotes_cr) flds) @ CHR 0x0A # rest) =
       (row @ flds) # parse_from FieldStart [] [] rest"
proof (induction flds arbitrary: row f0)
  case Nil
  then show ?case by simp
next
  case (Cons x xs)
  have okx: "CHR 0x0D \<in> set x \<longrightarrow> needs_quoting quotes_cr x"
    using Cons.prems(3) by simp
  show ?case
  proof (cases xs)
    case Nil
    have "x = [] \<longrightarrow> row \<noteq> []" using Cons.prems(2) Nil by auto
    then show ?thesis using Nil parse_field_newline [OF okx] by simp
  next
    case (Cons y ys)
    have rest_ok: "\<forall>f \<in> set (y # ys). CHR 0x0D \<in> set f \<longrightarrow> needs_quoting quotes_cr f"
      using Cons.prems(3) Cons by simp
    have "parse_from FieldStart f0 row
            (join '','' (map (quote_field quotes_cr) (x # y # ys)) @ CHR 0x0A # rest) =
          parse_from FieldStart f0 row
            (quote_field quotes_cr x @ CHR '','' #
               (join '','' (map (quote_field quotes_cr) (y # ys)) @ CHR 0x0A # rest))"
      by simp
    also have "\<dots> = parse_from FieldStart [] (row @ [x])
            (join '','' (map (quote_field quotes_cr) (y # ys)) @ CHR 0x0A # rest)"
      using okx by (rule parse_field_comma)
    also have "\<dots> = ((row @ [x]) @ (y # ys)) # parse_from FieldStart [] [] rest"
      using Cons.IH [of "row @ [x]" "[]"] rest_ok Cons by simp
    finally show ?thesis using Cons by simp
  qed
qed

lemma parse_written_row:
  assumes "flds \<noteq> []"
    and "\<forall>f \<in> set flds. CHR 0x0D \<in> set f \<longrightarrow> needs_quoting quotes_cr f"
  shows "parse_from FieldStart f0 [] (write_row quotes_cr flds @ rest) =
           flds # parse_from FieldStart [] [] rest"
proof (cases "flds = [[]]")
  case True
  then show ?thesis by (simp add: write_row_def)
next
  case False
  then have "[] @ flds \<noteq> [[]]" by simp
  from parse_joined_row [OF assms(1) this assms(2)] False
  show ?thesis by (simp add: write_row_def)
qed

lemma parse_written_rows:
  "\<forall>r \<in> set rows. r \<noteq> [] \<and> (\<forall>f \<in> set r. CHR 0x0D \<in> set f \<longrightarrow> needs_quoting quotes_cr f) \<Longrightarrow>
     parse_from FieldStart [] [] (concat (map (write_row quotes_cr) rows)) = rows"
proof (induction rows)
  case Nil
  then show ?case by simp
next
  case (Cons r rows)
  then have ne: "r \<noteq> []"
    and ok: "\<forall>f \<in> set r. CHR 0x0D \<in> set f \<longrightarrow> needs_quoting quotes_cr f"
    by simp_all
  have "parse_from FieldStart [] []
          (write_row quotes_cr r @ concat (map (write_row quotes_cr) rows)) =
        r # parse_from FieldStart [] [] (concat (map (write_row quotes_cr) rows))"
    using ne ok by (rule parse_written_row)
  then show ?case using Cons by simp
qed

lemma parse_to_csv:
  assumes "data \<noteq> []" and "cr_safe quotes_cr render data"
  shows "parse_csv (to_csv quotes_cr render data) = csv_rows render data"
proof -
  have "\<forall>r \<in> set (csv_rows render data). r \<noteq> []"
    using assms(1) by (auto simp: csv_rows_def columns_def)
  then have "\<forall>r \<in> set (csv_rows render data).
      r \<noteq> [] \<and> (\<forall>f \<in> set r. CHR 0x0D \<in> set f \<longrightarrow> needs_quoting quotes_cr f)"
    using assms(2) by (simp add: cr_safe_def)
  then show ?thesis
    unfolding parse_csv_def to_csv_def by (rule parse_written_rows)
qed

lemma cr_safe_quoting: "cr_safe True render data"
  by (auto simp: cr_safe_def needs_quoting_def)

lemma cr_safe_no_cr:
  "\<forall>row \<in> set (csv_rows render data). \<forall>f \<in> set row. CHR 0x0D \<notin> set f \<Longrightarrow>
     cr_safe quotes_cr render data"
  by (simp add: cr_safe_def)

lemma index_of_Some: "index_of x ys = Some k \<Longrightarrow> k < length ys \<and> ys ! k = x"
  by (induction ys arbitrary: k) (auto split: if_splits option.splits)

lemma index_of_member: "x \<in> set ys \<Longrightarrow> \<exists>k. index_of x ys = Some k"
  by (induction ys) auto

lemma csv_column_of_table:
  assumes "index_of label (columns data) = Some k"
  shows "csv_column (csv_rows render data) label =
           Some (map (\<lambda>i. cell_text render (snd (data ! k)) i) [0..<nrows data])"
proof -
  have k: "k < length data"
    using index_of_Some [OF assms] by (simp add: columns_def)
  have "\<And>i. (if k < length (map (\<lambda>(n, c). cell_text render c i) data)
             then map (\<lambda>(n, c). cell_text render c i) data ! k else []) =
            cell_text render (snd (data ! k)) i"
    using k by (simp add: case_prod_beta)
  then show ?thesis
    using assms by (simp add: csv_column_def csv_rows_def comp_def)
qed

lemma label_column_at_index:
  assumes "index_of label (columns data) = Some k"
    and "\<forall>c. (label, c) \<in> set data \<longrightarrow> c = v"
  shows "snd (data ! k) = v"
proof -
  have k: "k < length data"
    using index_of_Some [OF assms(1)] by (simp add: columns_def)
  have "columns data ! k = label"
    using index_of_Some [OF assms(1)] by simp
  then have l: "fst (data ! k) = label"
    using k by (simp add: columns_def)
  have "data ! k \<in> set data" using k by simp
  then have "(label, snd (data ! k)) \<in> set data" using l by (metis prod.collapse)
  then show ?thesis using assms(2) by blast
qed

lemma setitem_label_member:
  "(col, c) \<in> set (setitem data col v) \<Longrightarrow> c = v"
  by (force simp: setitem_def columns_def split: if_splits)

lemma setitem_label_present: "col \<in> set (columns (setitem data col v))"
  by (force simp: setitem_def columns_def image_iff)

lemma setitem_other_member:
  assumes "col' \<noteq> col"
  shows "(col, c) \<in> set (setitem data col' v) \<longleftrightarrow> (col, c) \<in> set data"
proof (cases "col' \<in> set (columns data)")
  case False
  then show ?thesis using assms by (auto simp: setitem_def)
next
  case True
  let ?f = "\<lambda>(n, c). if n = col' then (n, v) else (n, c)"
  have s: "set (setitem data col' v) = ?f ` set data"
    using True by (simp add: setitem_def)
  show ?thesis
  proof
    assume "(col, c) \<in> set (setitem data col' v)"
    then obtain x where x: "x \<in> set data" and fx: "?f x = (col, c)"
      unfolding s by auto
    obtain n c0 where xe: "x = (n, c0)" by (cases x)
    have "n \<noteq> col'" using fx xe assms by (auto split: if_splits)
    then have "x = (col, c)" using fx xe by simp
    then show "(col, c) \<in> set data" using x by simp
  next
    assume m: "(col, c) \<in> set data"
    have "?f (col, c) = (col, c)" using assms by simp
    then show "(col, c) \<in> set (setitem data col' v)"
      unfolding s using m by (metis (no_types, lifting) image_eqI)
  qed
qed

lemma columns_setitem_superset:
  "set (columns data) \<subseteq> set (columns (setitem data col v))"
  by (force simp: setitem_def columns_def image_iff)

lemma setitem_nonempty: "setitem data col v \<noteq> []"
  by (cases data) (auto simp: setitem_def columns_def)

lemma nrows_setitem:
  assumes "data = [] \<or> col_len v = nrows data"
  shows "nrows (setitem data col v) = col_len v"
proof (cases data)
  case Nil
  then show ?thesis by (simp add: setitem_def columns_def)
next
  case (Cons x rest)
  obtain n c where x: "x = (n, c)" by (cases x)
  have len: "col_len v = col_len c" using assms Cons x by simp
  show ?thesis
    unfolding Cons x setitem_def using len by (auto simp: columns_def)
qed

lemma assign_values_Inr:
  assumes "assign_values data col v = Inr t"
  shows "t = setitem data col v" and "nrows t = col_len v" and "t \<noteq> []"
proof -
  show t: "t = setitem data col v"
    using assms by (auto simp: assign_values_def split: if_splits)
  have "data = [] \<or> col_len v = nrows data"
    using assms by (auto simp: assign_values_def split: if_splits)
  then show "nrows t = col_len v" unfolding t by (rule nrows_setitem)
  show "t \<noteq> []" unfolding t by (rule setitem_nonempty)
qed

lemma getitem_Series_member:
  assumes "getitem data col = Inr (Series c)"
  shows "(col, c) \<in> set data"
proof -
  from assms obtain x where f: "filter (\<lambda>(n, c). n = col) data = [x]" and c: "c = snd x"
    by (auto simp: getitem_def split: list.splits if_splits)
  have "x \<in> set (filter (\<lambda>(n, c). n = col) data)" unfolding f by simp
  then have "x \<in> set data" and "fst x = col" by auto
  then show ?thesis using c by (metis prod.collapse)
qed

lemma map_labels_Inr:
  "map_labels s = Inr mapped \<Longrightarrow> \<exists>c. s = Series c"
  by (cases s) auto

lemma label_of_binary:
  "set predictions \<subseteq> {0, 1} \<Longrightarrow>
     map label_of (map (\<lambda>p. Fin (of_int p)) predictions) =
     map (\<lambda>p. PyStr (if p = 0 then ''Legitimate'' else ''Fraudulent'')) predictions"
  by (induction predictions) auto

lemma build_results_df_Inr:
  assumes "build_results_df df predictions proba = Inr results_df"
  shows "results_df \<noteq> []"
    and "nrows results_df = length predictions"
    and "''Fraud Prediction'' \<in> set (columns results_df)"
    and "\<forall>c. (''Fraud Prediction'', c) \<in> set results_df \<longrightarrow>
             c = ObjCol (map label_of (map (\<lambda>p. Fin (of_int p)) predictions))"
proof -
  let ?v = "NumCol (map (\<lambda>p. Fin (of_int p)) predictions)"
  let ?m = "ObjCol (map label_of (map (\<lambda>p. Fin (of_int p)) predictions))"
  from assms obtain t1 s mapped t2 where
    a1: "assign_values df ''Fraud Prediction'' ?v = Inr t1"
    and g: "getitem t1 ''Fraud Prediction'' = Inr s"
    and m: "map_labels s = Inr mapped"
    and a2: "assign_values t1 ''Fraud Prediction'' mapped = Inr t2"
    and last: "(case proba of None \<Rightarrow> Inr t2
                | Some ps \<Rightarrow> assign_values t2 ''Fraud Probability'' (NumCol (map Fin ps))) =
               Inr results_df"
    by (auto simp: build_results_df_def split: sum.splits)
  have t1: "t1 = setitem df ''Fraud Prediction'' ?v"
    using a1 by (rule assign_values_Inr(1))
  obtain c where s: "s = Series c" using map_labels_Inr [OF m] by blast
  have "(''Fraud Prediction'', c) \<in> set t1"
    using g s getitem_Series_member by blast
  then have c: "c = ?v" unfolding t1 by (rule setitem_label_member)
  have mapped: "mapped = ?m" using m s c by simp
  have t2: "t2 = setitem t1 ''Fraud Prediction'' ?m"
    using a2 mapped assign_values_Inr(1) by blast
  have n2: "nrows t2 = length predictions"
    using assign_values_Inr(2) [OF a2] mapped by simp
  have ne2: "t2 \<noteq> []" using a2 by (rule assign_values_Inr(3))
  have in2: "''Fraud Prediction'' \<in> set (columns t2)"
    unfolding t2 by (rule setitem_label_present)
  have all2: "\<forall>c. (''Fraud Prediction'', c) \<in> set t2 \<longrightarrow> c = ?m"
    unfolding t2 using setitem_label_member by blast
  show "results_df \<noteq> []"
    using last ne2 assign_values_Inr(3) by (cases proba) auto
  show "nrows results_df = length predictions"
  proof (cases proba)
    case None
    then show ?thesis using last n2 by simp
  next
    case (Some ps)
    then have a3: "assign_values t2 ''Fraud Probability'' (NumCol (map Fin ps)) = Inr results_df"
      using last by simp
    then have "col_len (NumCol (map Fin ps)) = nrows t2"
      using ne2 by (auto simp: assign_values_def split: if_splits)
    then show ?thesis using assign_values_Inr(2) [OF a3] n2 by simp
  qed
  show "''Fraud Prediction'' \<in> set (columns results_df)"
  proof (cases proba)
    case None
    then show ?thesis using last in2 by simp
  next
    case (Some ps)
    then have "results_df = setitem t2 ''Fraud Probability'' (NumCol (map Fin ps))"
      using last assign_values_Inr(1) by simp
    then show ?thesis using in2 columns_setitem_superset by blast
  qed
  show "\<forall>c. (''Fraud Prediction'', c) \<in> set results_df \<longrightarrow> c = ?m"
  proof (cases proba)
    case None
    then show ?thesis using last all2 by simp
  next
    case (Some ps)
    then have "results_df = setitem t2 ''Fraud Probability'' (NumCol (map Fin ps))"
      using last assign_values_Inr(1) by simp
    then show ?thesis using all2 by (simp add: setitem_other_member)
  qed
qed

lemma columns_setitem:
  "columns (setitem data col v) =
     (if col \<in> set (columns data) then columns data else columns data @ [col])"
  by (auto simp: setitem_def columns_def case_prod_beta)

lemma count_list_append_single:
  "count_list (xs @ [x]) y = count_list xs y + (if x = y then 1 else 0)"
  by (induction xs) auto

lemma count_label_setitem:
  assumes "count_list (columns data) col \<le> 1"
  shows "count_list (columns (setitem data col v)) col = 1"
proof (cases "col \<in> set (columns data)")
  case True
  then have "0 < count_list (columns data) col" by (rule count_list_pos)
  then show ?thesis using assms True by (simp add: columns_setitem)
next
  case False
  then have "count_list (columns data) col = 0" by (simp add: count_list_0_iff)
  then show ?thesis using False by (simp add: columns_setitem count_list_append_single)
qed

lemma build_results_df_succeeds:
  assumes "count_list (columns df) ''Fraud Prediction'' \<le> 1"
    and "df = [] \<or> nrows df = length predictions"
    and "\<forall>ps. proba = Some ps \<longrightarrow> length ps = length predictions"
  shows "\<exists>results_df. build_results_df df predictions proba = Inr results_df"
proof -
  let ?v = "NumCol (map (\<lambda>p. Fin (of_int p)) predictions)"
  let ?m = "ObjCol (map label_of (map (\<lambda>p. Fin (of_int p)) predictions))"
  let ?t1 = "setitem df ''Fraud Prediction'' ?v"
  let ?t2 = "setitem ?t1 ''Fraud Prediction'' ?m"
  have a1: "assign_values df ''Fraud Prediction'' ?v = Inr ?t1"
    using assms(2) by (auto simp: assign_values_def)
  have n1: "nrows ?t1 = length predictions"
    using nrows_setitem [of df ?v "''Fraud Prediction''"] assms(2) by auto
  have "count_list (columns ?t1) ''Fraud Prediction'' = 1"
    using assms(1) by (rule count_label_setitem)
  then obtain c where g: "getitem ?t1 ''Fraud Prediction'' = Inr (Series c)"
    using getitem_unique by blast
  then have "(''Fraud Prediction'', c) \<in> set ?t1" by (rule getitem_Series_member)
  then have c: "c = ?v" by (rule setitem_label_member)
  have m: "map_labels (Series c) = Inr ?m" unfolding c by simp
  have a2: "assign_values ?t1 ''Fraud Prediction'' ?m = Inr ?t2"
    using n1 by (simp add: assign_values_def)
  have n2: "nrows ?t2 = length predictions"
    using nrows_setitem [of ?t1 ?m "''Fraud Prediction''"] n1 by simp
  show ?thesis
  proof (cases proba)
    case None
    then show ?thesis using a1 g m a2 by (simp add: build_results_df_def)
  next
    case (Some ps)
    then have "length ps = length predictions" using assms(3) by simp
    then have "assign_values ?t2 ''Fraud Probability'' (NumCol (map Fin ps)) =
               Inr (setitem ?t2 ''Fraud Probability'' (NumCol (map Fin ps)))"
      using n2 by (simp add: assign_values_def)
    then show ?thesis using Some a1 g m a2 by (simp add: build_results_df_def)
  qed
qed

lemma prediction_column_read_back:
  assumes "build_results_df df predictions proba = Inr results_df"
    and "set predictions \<subseteq> {0, 1}"
  shows "csv_column (csv_rows render results_df) ''Fraud Prediction'' =
           Some (map (\<lambda>p. if p = 0 then ''Legitimate'' else ''Fraudulent'') predictions)"
proof -
  let ?w = "map (\<lambda>p. PyStr (if p = 0 then ''Legitimate'' else ''Fraudulent'')) predictions"
  note b = build_results_df_Inr [OF assms(1)]
  obtain k where k: "index_of ''Fraud Prediction'' (columns results_df) = Some k"
    using index_of_member [OF b(3)] by blast
  have "snd (results_df ! k) = ObjCol (map label_of (map (\<lambda>p. Fin (of_int p)) predictions))"
    using k b(4) by (rule label_column_at_index)
  then have col: "snd (results_df ! k) = ObjCol ?w"
    using label_of_binary [OF assms(2)] by simp
  have "map (\<lambda>i. cell_text render (ObjCol ?w) i) [0..<length predictions] =
        map (\<lambda>i. (if predictions ! i = 0 then ''Legitimate'' else ''Fraudulent''))
          [0..<length predictions]"
    by (rule map_cong) auto
  also have "\<dots> = map (\<lambda>p. if p = 0 then ''Legitimate'' else ''Fraudulent'') predictions"
    by (rule nth_equalityI) simp_all
  finally have cells: "map (\<lambda>i. cell_text render (ObjCol ?w) i) [0..<length predictions] =
        map (\<lambda>p. if p = 0 then ''Legitimate'' else ''Fraudulent'') predictions" .
  show ?thesis
    unfolding csv_column_of_table [OF k] col b(2) cells ..
qed

text \<open>
  C8. When the results table is built from the uploaded table, the predictions and the
  optional probabilities, and every field of it that holds a carriage return is written in
  quotes, then parsing its CSV text gives back the rows that were written; and for
  predictions that are all 0 or 1 the fields under the header \<open>Fraud Prediction\<close> are the
  words Legitimate (for 0) and Fraudulent (for 1), one for every row, in the order of the
  predictions. Every field with a carriage return is written in quotes when the csv writer
  quotes carriage returns, and also when no label and no cell text holds one. The table is
  built whenever the prediction label is not repeated among the uploaded columns and the
  lengths of the predictions and of the probabilities are the number of rows.
\<close>

theorem csv_round_trip:
  "(build_results_df df predictions proba = Inr results_df \<and>
    cr_safe quotes_cr render results_df \<longrightarrow>
      parse_csv (to_csv quotes_cr render results_df) = csv_rows render results_df \<and>
      (set predictions \<subseteq> {0, 1} \<longrightarrow>
         csv_column (parse_csv (to_csv quotes_cr render results_df)) ''Fraud Prediction'' =
           Some (map (\<lambda>p. if p = 0 then ''Legitimate'' else ''Fraudulent'') predictions)))
   \<and> cr_safe True render results_df
   \<and> ((\<forall>row \<in> set (csv_rows render results_df). \<forall>f \<in> set row. CHR 0x0D \<notin> set f) \<longrightarrow>
        cr_safe quotes_cr render results_df)
   \<and> (count_list (columns df) ''Fraud Prediction'' \<le> 1 \<and>
      (df = [] \<or> nrows df = length predictions) \<and>
      (\<forall>ps. proba = Some ps \<longrightarrow> length ps = length predictions) \<longrightarrow>
        (\<exists>results_df. build_results_df df predictions proba = Inr results_df))"
proof (intro conjI impI)
  assume a: "build_results_df df predictions proba = Inr results_df \<and>
    cr_safe quotes_cr render results_df"
  then have "results_df \<noteq> []" using build_results_df_Inr(1) by blast
  then show "parse_csv (to_csv quotes_cr render results_df) = csv_rows render results_df"
    using a by (simp add: parse_to_csv)
next
  assume a: "build_results_df df predictions proba = Inr results_df \<and>
    cr_safe quotes_cr render results_df"
    and p: "set predictions \<subseteq> {0, 1}"
  from a have b: "build_results_df df predictions proba = Inr results_df" by simp
  have "results_df \<noteq> []" using b by (rule build_results_df_Inr(1))
  then have "parse_csv (to_csv quotes_cr render results_df) = csv_rows render results_df"
    using a by (simp add: parse_to_csv)
  then show "csv_column (parse_csv (to_csv quotes_cr render results_df)) ''Fraud Prediction'' =
           Some (map (\<lambda>p. if p = 0 then ''Legitimate'' else ''Fraudulent'') predictions)"
    using prediction_column_read_back [OF b p] by simp
next
  show "cr_safe True render results_df" by (rule cr_safe_quoting)
next
  assume "\<forall>row \<in> set (csv_rows render results_df). \<forall>f \<in> set row. CHR 0x0D \<notin> set f"
  then show "cr_safe quotes_cr render results_df" by (rule cr_safe_no_cr)
next
  assume "count_list (columns df) ''Fraud Prediction'' \<le> 1 \<and>
      (df = [] \<or> nrows df = length predictions) \<and>
      (\<forall>ps. proba = Some ps \<longrightarrow> length ps = length predictions)"
  then show "\<exists>results_df. build_results_df df predictions proba = Inr results_df"
    using build_results_df_succeeds by blast
qed

lemma example_results_df:
  "build_results_df
     [(''V1'', NumCol [Fin 1, Fin 2]), (''Note'', ObjCol [PyStr ''a,b'', PyStr ''x''])]
     [0, 1] (Some [1 / 4, 3 / 4]) =
   Inr [(''V1'', NumCol [Fin 1, Fin 2]), (''Note'', ObjCol [PyStr ''a,b'', PyStr ''x'']),
        (''Fraud Prediction'', ObjCol [PyStr ''Legitimate'', PyStr ''Fraudulent'']),
        (''Fraud Probability'', NumCol [Fin (1 / 4), Fin (3 / 4)])]"
  by code_simp

lemma example_cr_safe:
  "cr_safe False example_render
     [(''V1'', NumCol [Fin 1, Fin 2]), (''Note'', ObjCol [PyStr ''a,b'', PyStr ''x'']),
      (''Fraud Prediction'', ObjCol [PyStr ''Legitimate'', PyStr ''Fraudulent'']),
      (''Fraud Probability'', NumCol [Fin (1 / 4), Fin (3 / 4)])]"
  by code_simp

lemma labelled_results_df:
  "build_results_df labelled_table [0, 1] None = Inr labelled_results"
  by code_simp

theorem csv_round_trip_witness:
  "build_results_df
     [(''V1'', NumCol [Fin 1, Fin 2]), (''Note'', ObjCol [PyStr ''a,b'', PyStr ''x''])]
     [0, 1] (Some [1 / 4, 3 / 4]) =
   Inr [(''V1'', NumCol [Fin 1, Fin 2]), (''Note'', ObjCol [PyStr ''a,b'', PyStr ''x'']),
        (''Fraud Prediction'', ObjCol [PyStr ''Legitimate'', PyStr ''Fraudulent'']),
        (''Fraud Probability'', NumCol [Fin (1 / 4), Fin (3 / 4)])]
   \<and> set [0, 1] \<subseteq> {0, 1 :: int}
   \<and> csv_column
        (parse_csv (to_csv False example_render
           [(''V1'', NumCol [Fin 1, Fin 2]), (''Note'', ObjCol [PyStr ''a,b'', PyStr ''x'']),
            (''Fraud Prediction'', ObjCol [PyStr ''Legitimate'', PyStr ''Fraudulent'']),
            (''Fraud Probability'', NumCol [Fin (1 / 4), Fin (3 / 4)])]))
        ''Fraud Prediction'' = Some [''Legitimate'', ''Fraudulent'']
   \<and> build_results_df labelled_table [0, 1] None = Inr labelled_results
   \<and> csv_column (parse_csv (to_csv True example_render labelled_results))
        ''Fraud Prediction'' = Some [''Legitimate'', ''Fraudulent'']"
proof -
  let ?df = "[(''V1'', NumCol [Fin 1, Fin 2]), (''Note'', ObjCol [PyStr ''a,b'', PyStr ''x''])]"
  let ?t = "[(''V1'', NumCol [Fin 1, Fin 2]), (''Note'', ObjCol [PyStr ''a,b'', PyStr ''x'']),
          (''Fraud Prediction'', ObjCol [PyStr ''Legitimate'', PyStr ''Fraudulent'']),
          (''Fraud Probability'', NumCol [Fin (1 / 4), Fin (3 / 4)])]"
  have s: "set [0, 1] \<subseteq> {0, 1 :: int}" by simp
  have "csv_column (parse_csv (to_csv False example_render ?t)) ''Fraud Prediction'' =
        Some (map (\<lambda>p. if p = 0 then ''Legitimate'' else ''Fraudulent'') [0, 1 :: int])"
    using csv_round_trip [of ?df "[0, 1]" "Some [1 / 4, 3 / 4]" ?t False example_render]
      example_results_df example_cr_safe s
    by blast
  then have one: "csv_column (parse_csv (to_csv False example_render ?t)) ''Fraud Prediction'' =
        Some [''Legitimate'', ''Fraudulent'']"
    by simp
  have "csv_column (parse_csv (to_csv True example_render labelled_results))
          ''Fraud Prediction'' =
        Some (map (\<lambda>p. if p = 0 then ''Legitimate'' else ''Fraudulent'') [0, 1 :: int])"
    using csv_round_trip [of labelled_table "[0, 1]" None labelled_results True example_render]
      labelled_results_df s
    by blast
  then have two: "csv_column (parse_csv (to_csv True example_render labelled_results))
          ''Fraud Prediction'' = Some [''Legitimate'', ''Fraudulent'']"
    by simp
  from example_results_df s one labelled_results_df two show ?thesis by (intro conjI)
qed

text \<open>
  C8 as stated has no condition on the uploaded cells. With a csv writer that does not
  quote a carriage return, an upload that passes validation and has a \<open>Class\<close> column, so
  that its text cell with a carriage return reaches the results table, is stored by
  \<open>predict\<close> as CSV text in which that cell is bare. Reading the text back ends the first
  row at the carriage return: three rows are read for two predictions, and the fields under
  \<open>Fraud Prediction\<close> are two empty fields and Fraudulent, not Legitimate and Fraudulent.
\<close>

theorem csv_bare_carriage_return:
  "build_results_df labelled_table [0, 1] None = Inr labelled_results
   \<and> snd (predict labelled_env (Some example_upload) Map.empty) ''q3Zk0vX8Jm1sT5yRb2NwAg'' =
       Some (to_csv False example_render labelled_results)
   \<and> csv_rows example_render labelled_results =
       [[''V1'', ''V2'', ''V3'', ''V4'', ''V5'', ''V6'', ''V7'', ''V8'', ''Class'', ''Note'',
         ''Fraud Prediction''],
        [''1'', ''1'', ''1'', ''1'', ''1'', ''1'', ''1'', ''1'', ''1'',
         [CHR ''a'', CHR 0x0D, CHR ''b''], ''Legitimate''],
        [''2'', ''2'', ''2'', ''2'', ''2'', ''2'', ''2'', ''2'', ''0'', ''x'', ''Fraudulent'']]
   \<and> parse_csv (to_csv False example_render labelled_results) =
       [[''V1'', ''V2'', ''V3'', ''V4'', ''V5'', ''V6'', ''V7'', ''V8'', ''Class'', ''Note'',
         ''Fraud Prediction''],
        [''1'', ''1'', ''1'', ''1'', ''1'', ''1'', ''1'', ''1'', ''1'', ''a''],
        [''b'', ''Legitimate''],
        [''2'', ''2'', ''2'', ''2'', ''2'', ''2'', ''2'', ''2'', ''0'', ''x'', ''Fraudulent'']]
   \<and> csv_column (parse_csv (to_csv False example_render labelled_results))
        ''Fraud Prediction'' = Some [[], [], ''Fraudulent'']"
  by code_simp

end
